theory Spec2Isabelle
  imports Complex_Main "HOL-Library.Multiset"
begin

section \<open>Rental property analysis: cash flow, break-even search, projections\<close>

text \<open>
  The program computes on binary floating-point numbers. The embedding computes on
  exact rationals instead: every finite intermediate value is the rational number the
  source's formula denotes, and rounding to two decimals is round-half-to-even on that
  exact value. What the embedding keeps of floating point is the part the control flow
  depends on: the array division of \<open>analysis.py\<close> yields NaN or an infinity where the
  divisor is zero (no exception), NaN and the infinities propagate through \<open>round\<close>,
  \<open>+\<close> and \<open>-\<close>, and \<open>NaN > 0\<close> is false. The scalar divisions of
  \<open>calculate_investment_projections\<close> raise \<open>ZeroDivisionError\<close> instead.
  Loan terms and the holding period are natural numbers.
\<close>

subsection \<open>Rounding to two decimals\<close>

definition round_half_even :: "rat \<Rightarrow> int" where
  "round_half_even x =
     (let f = \<lfloor>x\<rfloor>; d = x - of_int f
      in if d < 1 / 2 then f
         else if 1 / 2 < d then f + 1
         else if even f then f else f + 1)"

definition round2 :: "rat \<Rightarrow> rat" where
  "round2 x = of_int (round_half_even (x * 100)) / 100"

subsection \<open>Column values of a frame\<close>

datatype fval = Fin rat | PInf | NInf | NaN

datatype py_error = KeyError | ZeroDivisionError

text \<open>Array division: a zero divisor gives an infinity of the dividend's sign, or NaN.\<close>

definition np_div :: "rat \<Rightarrow> rat \<Rightarrow> fval" where
  "np_div a b =
     (if b \<noteq> 0 then Fin (a / b)
      else if 0 < a then PInf
      else if a < 0 then NInf
      else NaN)"

fun fround2 :: "fval \<Rightarrow> fval" where
  "fround2 (Fin x) = Fin (round2 x)"
| "fround2 v = v"

fun fneg :: "fval \<Rightarrow> fval" where
  "fneg (Fin x) = Fin (- x)"
| "fneg PInf = NInf"
| "fneg NInf = PInf"
| "fneg NaN = NaN"

fun fadd :: "fval \<Rightarrow> fval \<Rightarrow> fval" where
  "fadd (Fin x) (Fin y) = Fin (x + y)"
| "fadd NaN _ = NaN"
| "fadd _ NaN = NaN"
| "fadd PInf NInf = NaN"
| "fadd NInf PInf = NaN"
| "fadd PInf _ = PInf"
| "fadd _ PInf = PInf"
| "fadd NInf _ = NInf"
| "fadd _ NInf = NInf"

definition fsub :: "fval \<Rightarrow> fval \<Rightarrow> fval" where
  "fsub a b = fadd a (fneg b)"

text \<open>The comparison \<open>a > b\<close>; false whenever an operand is NaN.\<close>

fun fgt :: "fval \<Rightarrow> fval \<Rightarrow> bool" where
  "fgt (Fin x) (Fin y) = (y < x)"
| "fgt NaN _ = False"
| "fgt _ NaN = False"
| "fgt PInf PInf = False"
| "fgt PInf _ = True"
| "fgt NInf _ = False"
| "fgt (Fin x) PInf = False"
| "fgt (Fin x) NInf = True"

subsection \<open>analysis.py: calculate_monthly_cash_flow\<close>

text \<open>
  One row of the property frame. \<open>Price\<close> and \<open>RentEstimate\<close> are the inputs; the
  other three columns are written by \<open>calculate_monthly_cash_flow\<close> (a frame that does
  not carry them yet is a frame whose values there are overwritten).
\<close>

record property_row =
  ID :: string
  Price :: rat
  RentEstimate :: rat
  PropertyTax :: fval
  MonthlyMortgage :: fval
  MonthlyCashFlow :: fval

text \<open>The three column assignments of \<open>calculate_monthly_cash_flow\<close>, on one row.\<close>

definition cash_flow_row :: "rat \<Rightarrow> nat \<Rightarrow> rat \<Rightarrow> rat \<Rightarrow> property_row \<Rightarrow> property_row" where
  "cash_flow_row interest_rate loan_months monthly_insurance down_payment_percent r =
     (let monthly_rate = interest_rate / 12;
          loan_to_value = 1 - down_payment_percent;
          tax = Fin (round2 ((Price r * (125 / 10000)) / 12));
          mortgage = fround2
            (np_div ((loan_to_value * Price r) *
                       (monthly_rate * (1 + monthly_rate) ^ loan_months))
                    (((1 + monthly_rate) ^ loan_months) - 1));
          cash_flow = fround2
            (fsub (Fin (RentEstimate r)) (fadd (fadd tax mortgage) (Fin monthly_insurance)))
      in r\<lparr>PropertyTax := tax, MonthlyMortgage := mortgage, MonthlyCashFlow := cash_flow\<rparr>)"

text \<open>
  \<open>df.sort_values(by=['MonthlyCashFlow'], ascending=False)\<close> followed by
  \<open>reset_index\<close>. The call leaves the sort kind at the library's default, quicksort,
  which the library documents as not stable; the sorting routine itself is not part of
  this repository. The model therefore relates a frame to every frame that call may
  return: the same rows, cash flows in descending order, rows with a NaN cash flow last.
\<close>

definition desc_nan_last :: "property_row \<Rightarrow> property_row \<Rightarrow> bool" where
  "desc_nan_last a b \<longleftrightarrow>
     \<not> fgt (MonthlyCashFlow b) (MonthlyCashFlow a) \<and>
     (MonthlyCashFlow a = NaN \<longrightarrow> MonthlyCashFlow b = NaN)"

definition sort_values_desc :: "property_row list \<Rightarrow> property_row list \<Rightarrow> bool" where
  "sort_values_desc xs ys \<longleftrightarrow> mset ys = mset xs \<and> sorted_wrt desc_nan_last ys"

definition calculate_monthly_cash_flow ::
  "property_row list \<Rightarrow> rat \<Rightarrow> nat \<Rightarrow> rat \<Rightarrow> rat \<Rightarrow> property_row list \<Rightarrow> bool" where
  "calculate_monthly_cash_flow df interest_rate loan_months monthly_insurance
       down_payment_percent out \<longleftrightarrow>
     sort_values_desc
       (map (cash_flow_row interest_rate loan_months monthly_insurance down_payment_percent) df)
       out"

subsection \<open>analysis.py: calculate_break_even_down_payment\<close>

text \<open>\<open>np.arange(start, stop, step)\<close>: the values \<open>start + i * step\<close>.\<close>

definition arange :: "rat \<Rightarrow> rat \<Rightarrow> rat \<Rightarrow> rat list" where
  "arange start stop step =
     map (\<lambda>i. start + of_nat i * step) [0..<nat \<lceil>(stop - start) / step\<rceil>]"

text \<open>
  The inner \<open>for down_pct in np.arange(0.20, 1.0, 0.01)\<close> loop with its \<open>break\<close>.
  \<open>test_df\<close> is \<open>calculate_monthly_cash_flow\<close> of the one-row frame
  \<open>property_df\<close>; sorting one row returns that row (lemma
  \<open>calculate_monthly_cash_flow_single\<close> below), so \<open>test_df\<close> is the row that
  \<open>cash_flow_row\<close> computes. \<open>None\<close> is \<open>found = False\<close> at the end of the loop.
\<close>

fun search_down_payment ::
  "rat \<Rightarrow> nat \<Rightarrow> rat \<Rightarrow> property_row \<Rightarrow> rat list \<Rightarrow> (property_row \<times> rat) option" where
  "search_down_payment ir lm mi row [] = None"
| "search_down_payment ir lm mi row (down_pct # rest) =
     (let test_df = cash_flow_row ir lm mi down_pct row
      in if fgt (MonthlyCashFlow test_df) (Fin 0)
         then Some (test_df, round2 down_pct)
         else search_down_payment ir lm mi row rest)"

text \<open>
  The body of \<open>for idx, row in df.iterrows()\<close>: what is appended to \<open>result_df\<close>
  and to \<open>down_payment_percentages\<close> for one row, \<open>None\<close> when the row is skipped.
\<close>

definition break_even_row_step ::
  "rat \<Rightarrow> nat \<Rightarrow> rat \<Rightarrow> property_row \<Rightarrow> (property_row \<times> rat) option" where
  "break_even_row_step ir lm mi row =
     (if fgt (MonthlyCashFlow row) (Fin 0)
      then Some (row, 20 / 100)
      else search_down_payment ir lm mi row (arange (20 / 100) 1 (1 / 100)))"

text \<open>The loop over the rows, threading \<open>result_df\<close> and \<open>down_payment_percentages\<close>.\<close>

fun break_even_loop ::
  "rat \<Rightarrow> nat \<Rightarrow> rat \<Rightarrow> property_row list \<Rightarrow> property_row list \<times> rat list \<Rightarrow>
   property_row list \<times> rat list" where
  "break_even_loop ir lm mi [] acc = acc"
| "break_even_loop ir lm mi (row # rows) acc =
     (case break_even_row_step ir lm mi row of
        Some (r, pct) \<Rightarrow> break_even_loop ir lm mi rows (fst acc @ [r], snd acc @ [pct])
      | None \<Rightarrow> break_even_loop ir lm mi rows acc)"

record break_even_row = property_row +
  DownPaymentPercent :: rat
  DownPaymentAmount :: rat

text \<open>The two column assignments after the loop, on one row.\<close>

definition add_down_payment :: "property_row \<Rightarrow> rat \<Rightarrow> break_even_row" where
  "add_down_payment r pct =
     \<lparr>ID = ID r, Price = Price r, RentEstimate = RentEstimate r,
      PropertyTax = PropertyTax r, MonthlyMortgage = MonthlyMortgage r,
      MonthlyCashFlow = MonthlyCashFlow r,
      DownPaymentPercent = pct, DownPaymentAmount = round2 (pct * Price r)\<rparr>"

text \<open>
  \<open>result_df\<close> starts as \<open>pd.DataFrame()\<close>, a frame with no columns, and gets the
  columns of the rows concatenated to it. When no row was appended it still has no
  \<open>Price\<close> column after the loop, and \<open>result_df['Price']\<close> raises \<open>KeyError\<close>.
\<close>

definition calculate_break_even_down_payment ::
  "property_row list \<Rightarrow> rat \<Rightarrow> nat \<Rightarrow> rat \<Rightarrow> py_error + break_even_row list" where
  "calculate_break_even_down_payment df ir lm mi =
     (let (result_df, down_payment_percentages) = break_even_loop ir lm mi df ([], [])
      in if result_df = [] then Inl KeyError
         else Inr (map2 add_down_payment result_df down_payment_percentages))"

subsection \<open>app.py: calculate_investment_projections\<close>

record projection_inputs =
  purchase_price :: rat
  down_payment_pct :: rat
  interest_rate :: rat
  loan_years :: nat
  monthly_insurance :: rat
  annual_tax_rate :: rat
  monthly_rent :: rat
  vacancy_rate :: rat
  annual_appreciation :: rat
  annual_rent_increase :: rat
  holding_years :: nat
  initial_repairs :: rat
  ongoing_maintenance_pct :: rat
  extra_payment_monthly :: rat
  cashflow_to_principal_pct :: rat

definition down_payment :: "projection_inputs \<Rightarrow> rat" where
  "down_payment p = purchase_price p * down_payment_pct p"

definition loan_amount :: "projection_inputs \<Rightarrow> rat" where
  "loan_amount p = purchase_price p - down_payment p"

definition monthly_rate :: "projection_inputs \<Rightarrow> rat" where
  "monthly_rate p = interest_rate p / 12"

definition total_months :: "projection_inputs \<Rightarrow> nat" where
  "total_months p = loan_years p * 12"

definition total_cash_invested :: "projection_inputs \<Rightarrow> rat" where
  "total_cash_invested p = down_payment p + initial_repairs p"

text \<open>The monthly mortgage payment; a zero divisor raises.\<close>

definition monthly_mortgage :: "projection_inputs \<Rightarrow> py_error + rat" where
  "monthly_mortgage p =
     (if interest_rate p > 0 then
        (if ((1 + monthly_rate p) ^ total_months p) - 1 = 0 then Inl ZeroDivisionError
         else Inr ((loan_amount p * (monthly_rate p * (1 + monthly_rate p) ^ total_months p)) /
                   (((1 + monthly_rate p) ^ total_months p) - 1)))
      else
        (if total_months p = 0 then Inl ZeroDivisionError
         else Inr (loan_amount p / of_nat (total_months p))))"

text \<open>The state carried from year to year.\<close>

record sim_state =
  current_property_value :: rat
  current_monthly_rent :: rat
  remaining_balance :: rat
  cumulative_cash_flow :: rat
  cumulative_extra_principal :: rat

definition initial_state :: "projection_inputs \<Rightarrow> sim_state" where
  "initial_state p =
     \<lparr>current_property_value = purchase_price p,
      current_monthly_rent = monthly_rent p,
      remaining_balance = loan_amount p,
      cumulative_cash_flow = 0,
      cumulative_extra_principal = 0\<rparr>"

text \<open>
  One pass of \<open>for month in range(12)\<close> on the triple
  \<open>(principal_paid, total_extra_principal_this_year, temp_balance)\<close>.
\<close>

definition month_step :: "rat \<Rightarrow> rat \<Rightarrow> rat \<Rightarrow> rat \<Rightarrow> rat \<Rightarrow> rat \<times> rat \<times> rat \<Rightarrow> rat \<times> rat \<times> rat" where
  "month_step m_rate mortgage extra_fixed cash_flow_gross to_principal_pct acc =
     (case acc of (principal_paid, extra_this_year, temp_balance) \<Rightarrow>
        if temp_balance > 0 then
          (let interest_payment = temp_balance * m_rate;
               principal_payment = mortgage - interest_payment;
               extra_from_fixed = extra_fixed;
               extra_from_cashflow =
                 (if cash_flow_gross > 0 then cash_flow_gross * to_principal_pct else 0);
               total_extra = extra_from_fixed + extra_from_cashflow;
               total_extra' = min total_extra (temp_balance - principal_payment);
               principal_paid' = principal_paid + (principal_payment + total_extra');
               extra_this_year' = extra_this_year + total_extra';
               temp_balance' = temp_balance - (principal_payment + total_extra')
           in (principal_paid', extra_this_year',
               if temp_balance' < 0 then 0 else temp_balance'))
        else acc)"

text \<open>The first \<open>k\<close> passes of the month loop of one year; the loop makes twelve.\<close>

definition run_months :: "projection_inputs \<Rightarrow> rat \<Rightarrow> rat \<Rightarrow> rat \<Rightarrow> nat \<Rightarrow> rat \<times> rat \<times> rat" where
  "run_months p mortgage cash_flow_gross start_balance k =
     ((month_step (monthly_rate p) mortgage (extra_payment_monthly p) cash_flow_gross
         (cashflow_to_principal_pct p)) ^^ k) (0, 0, start_balance)"

text \<open>The values the body of the year loop computes, with the state it leaves.\<close>

record year_vars =
  year :: nat
  year_start_balance :: rat
  state_after :: sim_state
  monthly_property_tax :: rat
  monthly_maintenance :: rat
  effective_monthly_rent :: rat
  monthly_cash_flow_gross :: rat
  principal_paid :: rat
  total_extra_principal_this_year :: rat
  annual_cash_flow :: rat
  monthly_cash_flow :: rat
  equity :: rat
  total_cash_invested_adjusted :: rat
  roi_pct :: rat
  cash_on_cash :: rat
  net_proceeds :: rat
  total_profit :: rat

definition year_body :: "projection_inputs \<Rightarrow> rat \<Rightarrow> nat \<Rightarrow> sim_state \<Rightarrow> year_vars" where
  "year_body p mortgage y s =
     (let start_balance = remaining_balance s;
          value = (if y > 1 then current_property_value s * (1 + annual_appreciation p)
                   else current_property_value s);
          rent = (if y > 1 then current_monthly_rent s * (1 + annual_rent_increase p)
                  else current_monthly_rent s);
          property_tax = (value * annual_tax_rate p) / 12;
          maintenance = (purchase_price p * ongoing_maintenance_pct p) / 12;
          effective_rent = rent * (1 - vacancy_rate p);
          monthly_expenses = mortgage + property_tax + monthly_insurance p + maintenance;
          cash_flow_gross = effective_rent - monthly_expenses;
          months = run_months p mortgage cash_flow_gross start_balance 12;
          paid = fst months;
          extra_this_year = fst (snd months);
          balance = snd (snd months);
          cum_extra = cumulative_extra_principal s + extra_this_year;
          annual = (cash_flow_gross * 12) - extra_this_year;
          monthly = annual / 12;
          eq = value - balance;
          cum_cash_flow = cumulative_cash_flow s + annual;
          invested_adjusted = total_cash_invested p + cum_extra;
          total_return = cum_cash_flow + eq - invested_adjusted;
          roi = (if invested_adjusted > 0 then total_return / invested_adjusted * 100 else 0);
          coc = (if total_cash_invested p > 0 then annual / total_cash_invested p * 100 else 0);
          selling_costs = value * (6 / 100);
          proceeds = value - balance - selling_costs;
          profit = proceeds + cum_cash_flow - invested_adjusted
      in \<lparr>year = y,
          year_start_balance = start_balance,
          state_after = \<lparr>current_property_value = value, current_monthly_rent = rent,
                         remaining_balance = balance, cumulative_cash_flow = cum_cash_flow,
                         cumulative_extra_principal = cum_extra\<rparr>,
          monthly_property_tax = property_tax,
          monthly_maintenance = maintenance,
          effective_monthly_rent = effective_rent,
          monthly_cash_flow_gross = cash_flow_gross,
          principal_paid = paid,
          total_extra_principal_this_year = extra_this_year,
          annual_cash_flow = annual,
          monthly_cash_flow = monthly,
          equity = eq,
          total_cash_invested_adjusted = invested_adjusted,
          roi_pct = roi,
          cash_on_cash = coc,
          net_proceeds = proceeds,
          total_profit = profit\<rparr>)"

text \<open>The loop \<open>for year in range(1, holding_years + 1)\<close>.\<close>

fun run_years :: "projection_inputs \<Rightarrow> rat \<Rightarrow> nat list \<Rightarrow> sim_state \<Rightarrow> year_vars list" where
  "run_years p mortgage [] s = []"
| "run_years p mortgage (y # ys) s =
     (let v = year_body p mortgage y s in v # run_years p mortgage ys (state_after v))"

text \<open>The dictionary appended to \<open>projections\<close>: every figure rounded to two decimals.\<close>

record projection =
  Year :: nat
  PropertyValue :: rat
  MonthlyRent :: rat
  MonthlyCashFlow' :: rat
  AnnualCashFlow :: rat
  CumulativeCashFlow :: rat
  LoanBalance :: rat
  PrincipalPaid :: rat
  ExtraPrincipalThisYear :: rat
  CumulativeExtraPrincipal :: rat
  Equity :: rat
  CashOnCashReturn :: rat
  TotalROI :: rat
  NetProceedsIfSold :: rat
  TotalProfit :: rat

definition emit :: "year_vars \<Rightarrow> projection" where
  "emit v =
     \<lparr>Year = year v,
      PropertyValue = round2 (current_property_value (state_after v)),
      MonthlyRent = round2 (current_monthly_rent (state_after v)),
      MonthlyCashFlow' = round2 (monthly_cash_flow v),
      AnnualCashFlow = round2 (annual_cash_flow v),
      CumulativeCashFlow = round2 (cumulative_cash_flow (state_after v)),
      LoanBalance = round2 (remaining_balance (state_after v)),
      PrincipalPaid = round2 (principal_paid v),
      ExtraPrincipalThisYear = round2 (total_extra_principal_this_year v),
      CumulativeExtraPrincipal = round2 (cumulative_extra_principal (state_after v)),
      Equity = round2 (equity v),
      CashOnCashReturn = round2 (cash_on_cash v),
      TotalROI = round2 (roi_pct v),
      NetProceedsIfSold = round2 (net_proceeds v),
      TotalProfit = round2 (total_profit v)\<rparr>"

text \<open>The values of every simulated year, before rounding.\<close>

definition simulate :: "projection_inputs \<Rightarrow> rat \<Rightarrow> year_vars list" where
  "simulate p mortgage = run_years p mortgage [1..<holding_years p + 1] (initial_state p)"

definition calculate_investment_projections :: "projection_inputs \<Rightarrow> py_error + projection list" where
  "calculate_investment_projections p =
     (case monthly_mortgage p of
        Inl e \<Rightarrow> Inl e
      | Inr mortgage \<Rightarrow> Inr (map emit (simulate p mortgage)))"

text \<open>The working balance of a simulated year after \<open>k\<close> of its months.\<close>

definition month_balance :: "projection_inputs \<Rightarrow> rat \<Rightarrow> year_vars \<Rightarrow> nat \<Rightarrow> rat" where
  "month_balance p mortgage v k =
     snd (snd (run_months p mortgage (monthly_cash_flow_gross v) (year_start_balance v) k))"

text \<open>The input ranges that the calling layer enforces with its bounded widgets.\<close>

definition valid_inputs :: "projection_inputs \<Rightarrow> bool" where
  "valid_inputs p \<longleftrightarrow>
     0 \<le> purchase_price p \<and> 0 \<le> down_payment_pct p \<and> down_payment_pct p \<le> 1 \<and>
     0 \<le> interest_rate p \<and> 0 \<le> extra_payment_monthly p \<and>
     0 \<le> cashflow_to_principal_pct p"

subsection \<open>Example inputs\<close>

text \<open>
  A loan of 2400 over two years at no interest (100 a month) with 95 of extra principal
  a month: 60 is left after the first year, and the first month of the second year pays
  the loan off.
\<close>

definition payoff_example :: projection_inputs where
  "payoff_example =
     \<lparr>purchase_price = 2400, down_payment_pct = 0, interest_rate = 0, loan_years = 2,
      monthly_insurance = 0, annual_tax_rate = 0, monthly_rent = 300, vacancy_rate = 0,
      annual_appreciation = 0, annual_rent_increase = 0, holding_years = 3,
      initial_repairs = 0, ongoing_maintenance_pct = 0, extra_payment_monthly = 95,
      cashflow_to_principal_pct = 0\<rparr>"

text \<open>
  A 100000 purchase at 20% down, no interest, thirty years, held four years with 3.5%
  appreciation.
\<close>

definition rounding_example :: projection_inputs where
  "rounding_example =
     \<lparr>purchase_price = 100000, down_payment_pct = 20 / 100, interest_rate = 0, loan_years = 30,
      monthly_insurance = 150, annual_tax_rate = 125 / 10000, monthly_rent = 3000,
      vacancy_rate = 5 / 100, annual_appreciation = 35 / 1000, annual_rent_increase = 25 / 1000,
      holding_years = 4, initial_repairs = 0, ongoing_maintenance_pct = 1 / 100,
      extra_payment_monthly = 0, cashflow_to_principal_pct = 0\<rparr>"

text \<open>A 500000 purchase whose rent of 1000 does not cover its expenses.\<close>

definition negative_cash_flow_example :: projection_inputs where
  "negative_cash_flow_example =
     \<lparr>purchase_price = 500000, down_payment_pct = 20 / 100, interest_rate = 0, loan_years = 30,
      monthly_insurance = 150, annual_tax_rate = 125 / 10000, monthly_rent = 1000,
      vacancy_rate = 5 / 100, annual_appreciation = 3 / 100, annual_rent_increase = 25 / 1000,
      holding_years = 2, initial_repairs = 0, ongoing_maintenance_pct = 1 / 100,
      extra_payment_monthly = 0, cashflow_to_principal_pct = 0\<rparr>"

text \<open>
  A 120000 purchase at 20% down, no interest, twenty years (400 a month), renting at 1000
  with 100 of insurance: a gross cash flow of 500 a month. 50 a month and a fifth of the
  gross cash flow go to extra principal.
\<close>

definition extra_payment_example :: projection_inputs where
  "extra_payment_example =
     \<lparr>purchase_price = 120000, down_payment_pct = 20 / 100, interest_rate = 0, loan_years = 20,
      monthly_insurance = 100, annual_tax_rate = 0, monthly_rent = 1000, vacancy_rate = 0,
      annual_appreciation = 0, annual_rent_increase = 0, holding_years = 2,
      initial_repairs = 0, ongoing_maintenance_pct = 0, extra_payment_monthly = 50,
      cashflow_to_principal_pct = 20 / 100\<rparr>"

text \<open>
  The quotient the specification writes for the two return ratios, \<open>a \<div> b \<times> 100\<close>:
  there is no quotient by zero.
\<close>

definition spec_percent_of :: "rat \<Rightarrow> rat \<Rightarrow> rat option" where
  "spec_percent_of a b = (if b = 0 then None else Some (a / b * 100))"


text \<open>
  A listing as the normalising step supplies it, before the derived columns are computed,
  and the row that \<open>calculate_monthly_cash_flow\<close> at 20% down makes of a row.
\<close>

definition listing :: "string \<Rightarrow> rat \<Rightarrow> rat \<Rightarrow> property_row" where
  "listing i price rent =
     \<lparr>ID = i, Price = price, RentEstimate = rent,
      PropertyTax = NaN, MonthlyMortgage = NaN, MonthlyCashFlow = NaN\<rparr>"

definition analysed :: "rat \<Rightarrow> nat \<Rightarrow> rat \<Rightarrow> property_row \<Rightarrow> property_row" where
  "analysed ir lm mi r = cash_flow_row ir lm mi (20 / 100) r"

text \<open>
  The break-even search of one record as the specification words it. The fractions
  0.20, 0.21, ..., 0.99 are taken in increasing order and the first one whose recomputed
  cash flow is positive is the answer; there is none when no fraction of the scan gives a
  positive cash flow.
\<close>

definition spec_first_positive_fraction :: "rat \<Rightarrow> nat \<Rightarrow> rat \<Rightarrow> property_row \<Rightarrow> rat option" where
  "spec_first_positive_fraction ir lm mi row =
     map_option (\<lambda>k. (20 + of_nat k) / 100)
       (List.find
          (\<lambda>k. fgt (MonthlyCashFlow (cash_flow_row ir lm mi ((20 + of_nat k) / 100) row)) (Fin 0))
          [0..<80])"

text \<open>
  The record reported for one input record, in the specification's words: a record
  already positive is reported as it is at 0.20; any other record is reported at its
  first positive fraction, recomputed there; a record with no positive fraction is not
  reported.
\<close>

definition spec_break_even_record :: "rat \<Rightarrow> nat \<Rightarrow> rat \<Rightarrow> property_row \<Rightarrow> break_even_row option" where
  "spec_break_even_record ir lm mi row =
     (if fgt (MonthlyCashFlow row) (Fin 0)
      then Some (add_down_payment row (20 / 100))
      else map_option (\<lambda>pct. add_down_payment (cash_flow_row ir lm mi pct row) pct)
             (spec_first_positive_fraction ir lm mi row))"

text \<open>A 2000000 property renting at 2000 a month.\<close>

definition costly_listing :: property_row where
  "costly_listing = listing ''1'' 2000000 2000"


section \<open>Properties\<close>

subsection \<open>Rounding\<close>

lemma round_half_even_bounds:
  "of_int (round_half_even x) \<le> x + 1 / 2" "x - 1 / 2 \<le> of_int (round_half_even x)"
  unfolding round_half_even_def Let_def by (auto simp: not_less) linarith+

lemma round_half_even_floor: "\<lfloor>x\<rfloor> \<le> round_half_even x" "round_half_even x \<le> \<lfloor>x\<rfloor> + 1"
  unfolding round_half_even_def Let_def by auto

lemma round_half_even_mono:
  assumes "x \<le> y" shows "round_half_even x \<le> round_half_even y"
proof (cases "\<lfloor>x\<rfloor> = \<lfloor>y\<rfloor>")
  case True
  with assms show ?thesis
    unfolding round_half_even_def Let_def by auto
next
  case False
  from assms have "\<lfloor>x\<rfloor> \<le> \<lfloor>y\<rfloor>" by (rule floor_mono)
  with False have "\<lfloor>x\<rfloor> + 1 \<le> \<lfloor>y\<rfloor>" by simp
  with round_half_even_floor(2) [of x] round_half_even_floor(1) [of y]
  show ?thesis by linarith
qed

lemma round_half_even_of_int: "round_half_even (of_int k) = k"
  unfolding round_half_even_def Let_def by simp

lemma round2_mono: "x \<le> y \<Longrightarrow> round2 x \<le> round2 y"
  unfolding round2_def by (simp add: round_half_even_mono divide_right_mono)

lemma round2_hundredths: "round2 (of_int k / 100) = of_int k / 100"
  unfolding round2_def by (simp add: round_half_even_of_int)

lemma round2_zero: "round2 0 = 0"
  using round2_hundredths [of 0] by simp

lemma round2_nonneg: "0 \<le> x \<Longrightarrow> 0 \<le> round2 x"
  using round2_mono [of 0 x] by (simp add: round2_zero)

lemma round2_nonpos: "x \<le> 0 \<Longrightarrow> round2 x \<le> 0"
  using round2_mono [of x 0] by (simp add: round2_zero)

lemma round2_error: "\<bar>round2 x - x\<bar> \<le> 1 / 200"
proof -
  have "\<bar>of_int (round_half_even (x * 100)) - x * 100\<bar> \<le> 1 / 2"
    using round_half_even_bounds [of "x * 100"] by linarith
  then show ?thesis unfolding round2_def by (simp add: field_simps abs_le_iff)
qed

lemma floor_rat_numeral [simp]: "\<lfloor>(numeral a :: rat) / numeral b\<rfloor> = numeral a div numeral b"
  using floor_divide_of_int_eq [of "numeral a" "numeral b", where ?'a = rat] by simp

lemma floor_rat_neg_numeral [simp]: "\<lfloor>- ((numeral a :: rat) / numeral b)\<rfloor> = - numeral a div numeral b"
  using floor_divide_of_int_eq [of "- numeral a" "numeral b", where ?'a = rat] by simp

lemma year_body_simps:
  "year (year_body p m y s) = y"
  "year_start_balance (year_body p m y s) = remaining_balance s"
  "current_property_value (state_after (year_body p m y s)) =
     (if y > 1 then current_property_value s * (1 + annual_appreciation p) else current_property_value s)"
  "current_monthly_rent (state_after (year_body p m y s)) =
     (if y > 1 then current_monthly_rent s * (1 + annual_rent_increase p) else current_monthly_rent s)"
  "monthly_property_tax (year_body p m y s) =
     (current_property_value (state_after (year_body p m y s)) * annual_tax_rate p) / 12"
  "monthly_maintenance (year_body p m y s) = (purchase_price p * ongoing_maintenance_pct p) / 12"
  "effective_monthly_rent (year_body p m y s) =
     current_monthly_rent (state_after (year_body p m y s)) * (1 - vacancy_rate p)"
  "monthly_cash_flow_gross (year_body p m y s) =
     effective_monthly_rent (year_body p m y s) -
     (m + monthly_property_tax (year_body p m y s) + monthly_insurance p +
      monthly_maintenance (year_body p m y s))"
  unfolding year_body_def Let_def by simp_all

lemma year_body_months:
  "principal_paid (year_body p m y s) =
     fst (run_months p m (monthly_cash_flow_gross (year_body p m y s)) (remaining_balance s) 12)"
  "total_extra_principal_this_year (year_body p m y s) =
     fst (snd (run_months p m (monthly_cash_flow_gross (year_body p m y s)) (remaining_balance s) 12))"
  "remaining_balance (state_after (year_body p m y s)) =
     snd (snd (run_months p m (monthly_cash_flow_gross (year_body p m y s)) (remaining_balance s) 12))"
  unfolding year_body_def Let_def by simp_all

lemma year_body_totals:
  "cumulative_extra_principal (state_after (year_body p m y s)) =
     cumulative_extra_principal s + total_extra_principal_this_year (year_body p m y s)"
  "annual_cash_flow (year_body p m y s) =
     (monthly_cash_flow_gross (year_body p m y s) * 12) -
     total_extra_principal_this_year (year_body p m y s)"
  "monthly_cash_flow (year_body p m y s) = annual_cash_flow (year_body p m y s) / 12"
  "equity (year_body p m y s) =
     current_property_value (state_after (year_body p m y s)) -
     remaining_balance (state_after (year_body p m y s))"
  "cumulative_cash_flow (state_after (year_body p m y s)) =
     cumulative_cash_flow s + annual_cash_flow (year_body p m y s)"
  "total_cash_invested_adjusted (year_body p m y s) =
     total_cash_invested p + cumulative_extra_principal (state_after (year_body p m y s))"
  unfolding year_body_def Let_def by simp_all

lemma year_body_returns:
  "roi_pct (year_body p m y s) =
     (if total_cash_invested_adjusted (year_body p m y s) > 0
      then (cumulative_cash_flow (state_after (year_body p m y s)) + equity (year_body p m y s) -
            total_cash_invested_adjusted (year_body p m y s)) /
           total_cash_invested_adjusted (year_body p m y s) * 100
      else 0)"
  "cash_on_cash (year_body p m y s) =
     (if total_cash_invested p > 0
      then annual_cash_flow (year_body p m y s) / total_cash_invested p * 100 else 0)"
  "net_proceeds (year_body p m y s) =
     current_property_value (state_after (year_body p m y s)) -
     remaining_balance (state_after (year_body p m y s)) -
     current_property_value (state_after (year_body p m y s)) * (6 / 100)"
  "total_profit (year_body p m y s) =
     net_proceeds (year_body p m y s) + cumulative_cash_flow (state_after (year_body p m y s)) -
     total_cash_invested_adjusted (year_body p m y s)"
  unfolding year_body_def Let_def by simp_all


lemma month_step_zero: "snd (snd a) \<le> 0 \<Longrightarrow> month_step r m e g c a = a"
  by (cases a) (simp add: month_step_def)

lemma month_step_balance:
  assumes "0 \<le> r" "0 \<le> e" "0 \<le> c" "snd (snd a) * r \<le> m" "0 \<le> snd (snd a)"
  shows "0 \<le> snd (snd (month_step r m e g c a))"
    and "snd (snd (month_step r m e g c a)) \<le> snd (snd a)"
proof -
  obtain pp te tb where a: "a = (pp, te, tb)" by (cases a)
  define x where "x = (if g > 0 then g * c else 0)"
  have x: "0 \<le> x" using assms(3) by (simp add: x_def)
  have step: "snd (snd (month_step r m e g c a)) =
      (if tb > 0
       then (if tb - (m - tb * r + min (e + x) (tb - (m - tb * r))) < 0 then 0
             else tb - (m - tb * r + min (e + x) (tb - (m - tb * r))))
       else tb)"
    by (simp add: a month_step_def Let_def x_def)
  from assms a x show "0 \<le> snd (snd (month_step r m e g c a))"
    unfolding step by simp
  from assms a x show "snd (snd (month_step r m e g c a)) \<le> snd (snd a)"
    unfolding step by (simp add: min_def)
qed

lemma run_months_0: "run_months p m g b 0 = (0, 0, b)"
  by (simp add: run_months_def)

lemma run_months_Suc:
  "run_months p m g b (Suc k) =
     month_step (monthly_rate p) m (extra_payment_monthly p) g (cashflow_to_principal_pct p)
       (run_months p m g b k)"
  by (simp add: run_months_def)

lemma run_months_balance:
  assumes "0 \<le> monthly_rate p" "0 \<le> extra_payment_monthly p" "0 \<le> cashflow_to_principal_pct p"
    and "b * monthly_rate p \<le> m" "0 \<le> b"
  shows "0 \<le> snd (snd (run_months p m g b k)) \<and> snd (snd (run_months p m g b k)) \<le> b"
proof (induction k)
  case 0
  with assms show ?case by (simp add: run_months_0)
next
  case (Suc k)
  let ?a = "run_months p m g b k"
  from Suc assms(1) have "snd (snd ?a) * monthly_rate p \<le> b * monthly_rate p"
    by (simp add: mult_right_mono)
  with assms(4) have cov: "snd (snd ?a) * monthly_rate p \<le> m" by simp
  from Suc have nn: "0 \<le> snd (snd ?a)" by simp
  from month_step_balance [OF assms(1-3) cov nn, of g] Suc
  show ?case by (simp add: run_months_Suc)
qed

lemma run_months_step_le:
  assumes "0 \<le> monthly_rate p" "0 \<le> extra_payment_monthly p" "0 \<le> cashflow_to_principal_pct p"
    and "b * monthly_rate p \<le> m" "0 \<le> b"
  shows "snd (snd (run_months p m g b (Suc k))) \<le> snd (snd (run_months p m g b k))"
proof -
  let ?a = "run_months p m g b k"
  from run_months_balance [OF assms, of g k]
  have nn: "0 \<le> snd (snd ?a)" and le: "snd (snd ?a) \<le> b" by simp_all
  from le assms(1) have "snd (snd ?a) * monthly_rate p \<le> b * monthly_rate p"
    by (simp add: mult_right_mono)
  with assms(4) have cov: "snd (snd ?a) * monthly_rate p \<le> m" by simp
  from month_step_balance(2) [OF assms(1-3) cov nn, of g]
  show ?thesis by (simp add: run_months_Suc)
qed

lemma run_months_stay_zero:
  "snd (snd (run_months p m g b k)) \<le> 0 \<Longrightarrow> run_months p m g b (Suc k) = run_months p m g b k"
  by (simp add: run_months_Suc month_step_zero)

lemma run_months_stay_zero_later:
  assumes "snd (snd (run_months p m g b k)) \<le> 0"
  shows "k \<le> k' \<Longrightarrow> run_months p m g b k' = run_months p m g b k"
proof (induction k')
  case 0
  then show ?case by simp
next
  case (Suc k')
  show ?case
  proof (cases "k = Suc k'")
    case True
    then show ?thesis by simp
  next
    case False
    with Suc have eq: "run_months p m g b k' = run_months p m g b k" by simp
    with assms have "snd (snd (run_months p m g b k')) \<le> 0" by simp
    from run_months_stay_zero [OF this] eq show ?thesis by simp
  qed
qed

lemma run_months_zero_start: "b \<le> 0 \<Longrightarrow> run_months p m g b k = (0, 0, b)"
  by (induction k) (simp_all add: run_months_0 run_months_Suc month_step_zero)

lemma mortgage_covers_interest:
  assumes "valid_inputs p" "monthly_mortgage p = Inr m"
  shows "0 \<le> loan_amount p" and "0 \<le> monthly_rate p" and "loan_amount p * monthly_rate p \<le> m"
proof -
  from assms(1) have pr: "0 \<le> purchase_price p" and d: "down_payment_pct p \<le> 1"
    and ir: "0 \<le> interest_rate p" by (simp_all add: valid_inputs_def)
  have "loan_amount p = purchase_price p * (1 - down_payment_pct p)"
    by (simp add: loan_amount_def down_payment_def algebra_simps)
  with pr d show la: "0 \<le> loan_amount p" by simp
  from ir show mr: "0 \<le> monthly_rate p" by (simp add: monthly_rate_def)
  show "loan_amount p * monthly_rate p \<le> m"
  proof (cases "interest_rate p > 0")
    case True
    define q where "q = (1 + monthly_rate p) ^ total_months p"
    from True have r: "0 < monthly_rate p" by (simp add: monthly_rate_def)
    then have "1 \<le> q" unfolding q_def by (simp add: one_le_power)
    moreover from assms(2) True have ne: "q - 1 \<noteq> 0" and m: "m = (loan_amount p * (monthly_rate p * q)) / (q - 1)"
      unfolding q_def by (auto simp: monthly_mortgage_def split: if_splits)
    ultimately have q: "1 < q" by simp
    have "loan_amount p * monthly_rate p * (q - 1) \<le> loan_amount p * monthly_rate p * q"
      using la mr by (simp add: mult_left_mono)
    with q have "loan_amount p * monthly_rate p \<le> (loan_amount p * monthly_rate p * q) / (q - 1)"
      by (simp add: pos_le_divide_eq)
    with m show ?thesis by (simp add: mult.assoc)
  next
    case False
    with ir have z: "monthly_rate p = 0" by (simp add: monthly_rate_def)
    from assms(2) False have "m = loan_amount p / of_nat (total_months p)"
      by (auto simp: monthly_mortgage_def split: if_splits)
    with la z show ?thesis by simp
  qed
qed

lemma length_run_years: "length (run_years p m ys s) = length ys"
  by (induction ys arbitrary: s) (simp_all add: Let_def)

lemma run_years_nth_0: "ys \<noteq> [] \<Longrightarrow> run_years p m ys s ! 0 = year_body p m (ys ! 0) s"
  by (cases ys) (simp_all add: Let_def)

lemma run_years_nth_Suc:
  "Suc i < length ys \<Longrightarrow>
     run_years p m ys s ! Suc i = year_body p m (ys ! Suc i) (state_after (run_years p m ys s ! i))"
proof (induction ys arbitrary: s i)
  case Nil
  then show ?case by simp
next
  case (Cons y ys)
  show ?case
  proof (cases i)
    case 0
    with Cons.prems show ?thesis by (cases ys) (simp_all add: Let_def)
  next
    case (Suc j)
    with Cons.prems have "Suc j < length ys" by simp
    from Cons.IH [OF this] Suc show ?thesis by (simp add: Let_def)
  qed
qed

lemma length_simulate: "length (simulate p m) = holding_years p"
  by (simp add: simulate_def length_run_years)

lemma years_nth: "i < h \<Longrightarrow> [1..<h + 1] ! i = Suc i"
  using nth_upt [of 1 i "h + 1"] by simp

lemma simulate_nth_0:
  assumes "0 < holding_years p"
  shows "simulate p m ! 0 = year_body p m 1 (initial_state p)"
proof -
  from assms have ne: "[1..<holding_years p + 1] \<noteq> []" by simp
  from years_nth [OF assms] have "[1..<holding_years p + 1] ! 0 = 1" by simp
  with run_years_nth_0 [OF ne, of p m "initial_state p"] show ?thesis
    by (simp only: simulate_def)
qed

lemma simulate_nth_Suc:
  assumes "Suc i < holding_years p"
  shows "simulate p m ! Suc i = year_body p m (Suc (Suc i)) (state_after (simulate p m ! i))"
proof -
  from assms have len: "Suc i < length [1..<holding_years p + 1]" by simp
  from years_nth [OF assms] have "[1..<holding_years p + 1] ! Suc i = Suc (Suc i)" .
  with run_years_nth_Suc [OF len, of p m "initial_state p"] show ?thesis
    by (simp only: simulate_def)
qed


lemma year_body_balance:
  assumes "valid_inputs p" "monthly_mortgage p = Inr m"
    and "0 \<le> remaining_balance s" "remaining_balance s \<le> loan_amount p"
  shows "0 \<le> remaining_balance (state_after (year_body p m y s))"
    and "remaining_balance (state_after (year_body p m y s)) \<le> remaining_balance s"
    and "k < 12 \<Longrightarrow> 0 \<le> month_balance p m (year_body p m y s) (Suc k)"
    and "k < 12 \<Longrightarrow> month_balance p m (year_body p m y s) (Suc k) \<le> month_balance p m (year_body p m y s) k"
proof -
  note mc = mortgage_covers_interest [OF assms(1,2)]
  from assms(1) have e: "0 \<le> extra_payment_monthly p" and c: "0 \<le> cashflow_to_principal_pct p"
    by (simp_all add: valid_inputs_def)
  from assms(4) mc(2) have "remaining_balance s * monthly_rate p \<le> loan_amount p * monthly_rate p"
    by (simp add: mult_right_mono)
  with mc(3) have cov: "remaining_balance s * monthly_rate p \<le> m" by simp
  note rb = run_months_balance [OF mc(2) e c cov assms(3)]
  from rb [of _ 12] show "0 \<le> remaining_balance (state_after (year_body p m y s))"
    and "remaining_balance (state_after (year_body p m y s)) \<le> remaining_balance s"
    by (simp_all add: year_body_months)
  from rb [of _ "Suc k"] show "0 \<le> month_balance p m (year_body p m y s) (Suc k)"
    by (simp add: month_balance_def year_body_simps)
  from run_months_step_le [OF mc(2) e c cov assms(3)]
  show "month_balance p m (year_body p m y s) (Suc k) \<le> month_balance p m (year_body p m y s) k"
    by (simp add: month_balance_def year_body_simps)
qed

lemma simulate_start_balance:
  assumes "i < holding_years p"
  shows "year_start_balance (simulate p m ! i) =
     (if i = 0 then loan_amount p else remaining_balance (state_after (simulate p m ! (i - 1))))"
proof (cases i)
  case 0
  with assms show ?thesis by (simp add: simulate_nth_0 year_body_simps initial_state_def)
next
  case (Suc j)
  with assms show ?thesis by (simp add: simulate_nth_Suc year_body_simps)
qed

lemma simulate_balance_range:
  assumes "valid_inputs p" "monthly_mortgage p = Inr m"
  shows "i < holding_years p \<Longrightarrow>
     0 \<le> remaining_balance (state_after (simulate p m ! i)) \<and>
     remaining_balance (state_after (simulate p m ! i)) \<le> loan_amount p"
proof (induction i)
  case 0
  have s0: "remaining_balance (initial_state p) = loan_amount p" by (simp add: initial_state_def)
  from mortgage_covers_interest(1) [OF assms] s0
  have "0 \<le> remaining_balance (initial_state p)" "remaining_balance (initial_state p) \<le> loan_amount p"
    by simp_all
  from year_body_balance(1,2) [OF assms this, of 1] 0 s0 show ?case
    by (simp add: simulate_nth_0)
next
  case (Suc i)
  then have "0 \<le> remaining_balance (state_after (simulate p m ! i))"
    "remaining_balance (state_after (simulate p m ! i)) \<le> loan_amount p" by simp_all
  from year_body_balance(1,2) [OF assms this, of "Suc (Suc i)"] this Suc.prems show ?case
    by (simp add: simulate_nth_Suc)
qed

lemma simulate_start_range:
  assumes "valid_inputs p" "monthly_mortgage p = Inr m" "i < holding_years p"
  shows "0 \<le> year_start_balance (simulate p m ! i) \<and> year_start_balance (simulate p m ! i) \<le> loan_amount p"
proof (cases i)
  case 0
  with assms(3) mortgage_covers_interest(1) [OF assms(1,2)] show ?thesis
    by (simp add: simulate_start_balance)
next
  case (Suc j)
  with assms(3) have "j < holding_years p" by simp
  from simulate_balance_range [OF assms(1,2) this] Suc assms(3) show ?thesis
    by (simp add: simulate_start_balance)
qed

lemma simulate_is_year_body:
  assumes "i < holding_years p"
  shows "\<exists>s. simulate p m ! i = year_body p m (Suc i) s \<and>
             remaining_balance s = year_start_balance (simulate p m ! i)"
proof (cases i)
  case 0
  with assms show ?thesis by (auto simp: simulate_nth_0 year_body_simps)
next
  case (Suc j)
  with assms show ?thesis by (auto simp: simulate_nth_Suc year_body_simps)
qed

lemma simulate_year_balance:
  assumes "valid_inputs p" "monthly_mortgage p = Inr m" "i < holding_years p"
  shows "remaining_balance (state_after (simulate p m ! i)) \<le> year_start_balance (simulate p m ! i)"
    and "k < 12 \<Longrightarrow> 0 \<le> month_balance p m (simulate p m ! i) (Suc k)"
    and "k < 12 \<Longrightarrow> month_balance p m (simulate p m ! i) (Suc k) \<le> month_balance p m (simulate p m ! i) k"
proof -
  from simulate_is_year_body [OF assms(3), of m] obtain s where
    v: "simulate p m ! i = year_body p m (Suc i) s"
    and s: "remaining_balance s = year_start_balance (simulate p m ! i)" by blast
  from simulate_start_range [OF assms] s
  have r: "0 \<le> remaining_balance s" "remaining_balance s \<le> loan_amount p" by simp_all
  from year_body_balance(2) [OF assms(1,2) r, of "Suc i"] v s
  show "remaining_balance (state_after (simulate p m ! i)) \<le> year_start_balance (simulate p m ! i)"
    by simp
  from year_body_balance(3) [OF assms(1,2) r, of k "Suc i"] v
  show "k < 12 \<Longrightarrow> 0 \<le> month_balance p m (simulate p m ! i) (Suc k)" by simp
  from year_body_balance(4) [OF assms(1,2) r, of k "Suc i"] v
  show "k < 12 \<Longrightarrow> month_balance p m (simulate p m ! i) (Suc k) \<le> month_balance p m (simulate p m ! i) k"
    by simp
qed

lemma simulate_month_ends:
  assumes "i < holding_years p"
  shows "month_balance p m (simulate p m ! i) 0 = year_start_balance (simulate p m ! i)"
    and "month_balance p m (simulate p m ! i) 12 = remaining_balance (state_after (simulate p m ! i))"
proof -
  from simulate_is_year_body [OF assms, of m] obtain s where
    v: "simulate p m ! i = year_body p m (Suc i) s" by blast
  show "month_balance p m (simulate p m ! i) 0 = year_start_balance (simulate p m ! i)"
    by (simp add: month_balance_def run_months_0)
  show "month_balance p m (simulate p m ! i) 12 = remaining_balance (state_after (simulate p m ! i))"
    unfolding v by (simp add: month_balance_def year_body_months year_body_simps)
qed

lemma simulate_paid_off_year:
  assumes "i < holding_years p" "year_start_balance (simulate p m ! i) \<le> 0"
  shows "principal_paid (simulate p m ! i) = 0"
    and "total_extra_principal_this_year (simulate p m ! i) = 0"
    and "remaining_balance (state_after (simulate p m ! i)) = year_start_balance (simulate p m ! i)"
proof -
  from simulate_is_year_body [OF assms(1), of m] obtain s where
    v: "simulate p m ! i = year_body p m (Suc i) s"
    and s: "remaining_balance s = year_start_balance (simulate p m ! i)" by blast
  from assms(2) s have z: "remaining_balance s \<le> 0" by simp
  show "principal_paid (simulate p m ! i) = 0"
    unfolding v by (simp add: year_body_months run_months_zero_start [OF z])
  show "total_extra_principal_this_year (simulate p m ! i) = 0"
    unfolding v by (simp add: year_body_months run_months_zero_start [OF z])
  show "remaining_balance (state_after (simulate p m ! i)) = year_start_balance (simulate p m ! i)"
    unfolding v by (simp add: year_body_months year_body_simps run_months_zero_start [OF z])
qed

lemma simulate_stays_paid_off:
  assumes "valid_inputs p" "monthly_mortgage p = Inr m"
    and "remaining_balance (state_after (simulate p m ! i)) = 0"
  shows "i \<le> j \<Longrightarrow> j < holding_years p \<Longrightarrow> remaining_balance (state_after (simulate p m ! j)) = 0"
proof (induction j)
  case 0
  with assms(3) show ?case by simp
next
  case (Suc j)
  show ?case
  proof (cases "i = Suc j")
    case True
    with assms(3) show ?thesis by simp
  next
    case False
    with Suc have z: "remaining_balance (state_after (simulate p m ! j)) = 0" by simp
    from Suc.prems have "year_start_balance (simulate p m ! Suc j) = 0"
      by (simp add: simulate_start_balance z)
    with simulate_paid_off_year(3) [OF Suc.prems(2), of m] show ?thesis by simp
  qed
qed


lemma month_step_eval:
  "month_step r m e g c (pp, te, tb) =
     (if tb > 0
      then (pp + (m - tb * r + min (e + (if g > 0 then g * c else 0)) (tb - (m - tb * r))),
            te + min (e + (if g > 0 then g * c else 0)) (tb - (m - tb * r)),
            if tb - (m - tb * r + min (e + (if g > 0 then g * c else 0)) (tb - (m - tb * r))) < 0
            then 0
            else tb - (m - tb * r + min (e + (if g > 0 then g * c else 0)) (tb - (m - tb * r))))
      else (pp, te, tb))"
  by (simp add: month_step_def Let_def)

lemma funpow_12: "(f ^^ 12) x = f (f (f (f (f (f (f (f (f (f (f (f x)))))))))))"
  by (simp add: eval_nat_numeral)


lemma payoff_example_mortgage: "monthly_mortgage payoff_example = Inr 100"
  by (simp add: monthly_mortgage_def payoff_example_def total_months_def loan_amount_def
      down_payment_def)

lemma payoff_example_months_1:
  "run_months payoff_example 100 g 2400 12 = (2340, 1140, 60)"
  by (simp add: run_months_def funpow_12 month_step_eval payoff_example_def monthly_rate_def)

lemma payoff_example_months_2:
  "run_months payoff_example 100 g 60 12 = (60, - 40, 0)"
  by (simp add: run_months_def funpow_12 month_step_eval payoff_example_def monthly_rate_def)

lemma payoff_example_year_1:
  "remaining_balance (state_after (simulate payoff_example 100 ! 0)) = 60"
  "total_extra_principal_this_year (simulate payoff_example 100 ! 0) = 1140"
  "cumulative_extra_principal (state_after (simulate payoff_example 100 ! 0)) = 1140"
proof -
  have h: "0 < holding_years payoff_example" by (simp add: payoff_example_def)
  have b: "remaining_balance (initial_state payoff_example) = 2400"
    by (simp add: initial_state_def loan_amount_def down_payment_def payoff_example_def)
  show "remaining_balance (state_after (simulate payoff_example 100 ! 0)) = 60"
    by (simp add: simulate_nth_0 [OF h] year_body_months b payoff_example_months_1)
  show e: "total_extra_principal_this_year (simulate payoff_example 100 ! 0) = 1140"
    by (simp add: simulate_nth_0 [OF h] year_body_months b payoff_example_months_1)
  show "cumulative_extra_principal (state_after (simulate payoff_example 100 ! 0)) = 1140"
    using e by (simp add: simulate_nth_0 [OF h] year_body_totals initial_state_def)
qed

lemma payoff_example_year_2:
  "remaining_balance (state_after (simulate payoff_example 100 ! Suc 0)) = 0"
  "total_extra_principal_this_year (simulate payoff_example 100 ! Suc 0) = - 40"
  "cumulative_extra_principal (state_after (simulate payoff_example 100 ! Suc 0)) = 1100"
proof -
  have h: "Suc 0 < holding_years payoff_example" by (simp add: payoff_example_def)
  show "remaining_balance (state_after (simulate payoff_example 100 ! Suc 0)) = 0"
    using simulate_nth_Suc [OF h, of 100]
    by (simp add: year_body_months payoff_example_year_1 payoff_example_months_2)
  show e: "total_extra_principal_this_year (simulate payoff_example 100 ! Suc 0) = - 40"
    using simulate_nth_Suc [OF h, of 100]
    by (simp add: year_body_months payoff_example_year_1 payoff_example_months_2)
  show "cumulative_extra_principal (state_after (simulate payoff_example 100 ! Suc 0)) = 1100"
    using simulate_nth_Suc [OF h, of 100] e
    by (simp add: year_body_totals payoff_example_year_1)
qed


lemma calculate_investment_projections_Inr:
  "monthly_mortgage p = Inr m \<Longrightarrow>
     calculate_investment_projections p = Inr (map emit (simulate p m))"
  by (simp add: calculate_investment_projections_def)

lemma emit_simps:
  "LoanBalance (emit v) = round2 (remaining_balance (state_after v))"
  "PropertyValue (emit v) = round2 (current_property_value (state_after v))"
  "MonthlyRent (emit v) = round2 (current_monthly_rent (state_after v))"
  "Year (emit v) = year v"
  "Equity (emit v) = round2 (equity v)"
  "CashOnCashReturn (emit v) = round2 (cash_on_cash v)"
  "TotalROI (emit v) = round2 (roi_pct v)"
  "CumulativeCashFlow (emit v) = round2 (cumulative_cash_flow (state_after v))"
  "CumulativeExtraPrincipal (emit v) = round2 (cumulative_extra_principal (state_after v))"
  "ExtraPrincipalThisYear (emit v) = round2 (total_extra_principal_this_year v)"
  "PrincipalPaid (emit v) = round2 (principal_paid v)"
  "AnnualCashFlow (emit v) = round2 (annual_cash_flow v)"
  by (simp_all add: emit_def)

subsection \<open>The loan balance\<close>

text \<open>
  Claim C6. For inputs in the ranges the calling layer enforces, the working balance
  never rises from one month to the next and is never negative, so the remaining
  balance of a year is between zero and the balance the year started with, which is the
  remaining balance of the year before; the emitted \<open>LoanBalance\<close> is non-negative and
  non-increasing from year to year. Once the working balance is zero, every later month
  of the year leaves the running totals as they are (no principal, no extra principal,
  no interest); a year that starts at zero reports zero principal paid, zero extra
  principal and a zero balance, and so does every year after one that ends at zero.
\<close>

theorem loan_balance_non_increasing:
  assumes "valid_inputs p" and "monthly_mortgage p = Inr m"
    and "i < holding_years p" and "k < 12"
  shows "calculate_investment_projections p = Inr (map emit (simulate p m)) \<and>
     length (simulate p m) = holding_years p \<and>
     (let v = simulate p m ! i;
          months = run_months p m (monthly_cash_flow_gross v) (year_start_balance v)
      in year_start_balance v =
           (if i = 0 then loan_amount p
            else remaining_balance (state_after (simulate p m ! (i - 1)))) \<and>
         snd (snd (months 0)) = year_start_balance v \<and>
         snd (snd (months 12)) = remaining_balance (state_after v) \<and>
         0 \<le> snd (snd (months (Suc k))) \<and>
         snd (snd (months (Suc k))) \<le> snd (snd (months k)) \<and>
         (snd (snd (months k)) = 0 \<longrightarrow> (\<forall>k' \<ge> k. months k' = months k)) \<and>
         0 \<le> remaining_balance (state_after v) \<and>
         remaining_balance (state_after v) \<le> year_start_balance v \<and>
         (year_start_balance v = 0 \<longrightarrow>
            principal_paid v = 0 \<and> total_extra_principal_this_year v = 0 \<and>
            remaining_balance (state_after v) = 0) \<and>
         (remaining_balance (state_after v) = 0 \<longrightarrow>
            (\<forall>j. i < j \<and> j < holding_years p \<longrightarrow>
               principal_paid (simulate p m ! j) = 0 \<and>
               total_extra_principal_this_year (simulate p m ! j) = 0 \<and>
               remaining_balance (state_after (simulate p m ! j)) = 0)) \<and>
         0 \<le> LoanBalance (map emit (simulate p m) ! i) \<and>
         (0 < i \<longrightarrow>
            LoanBalance (map emit (simulate p m) ! i) \<le>
            LoanBalance (map emit (simulate p m) ! (i - 1))))"
proof -
  let ?v = "simulate p m ! i"
  note len = length_simulate [of p m]
  note yb = simulate_year_balance [OF assms(1-3)]
  note me = simulate_month_ends [OF assms(3), of m]
  from simulate_balance_range [OF assms(1-3)]
  have nn: "0 \<le> remaining_balance (state_after ?v)" by simp
  have start: "year_start_balance ?v =
      (if i = 0 then loan_amount p else remaining_balance (state_after (simulate p m ! (i - 1))))"
    by (rule simulate_start_balance [OF assms(3)])
  have zero: "year_start_balance ?v = 0 \<longrightarrow>
      principal_paid ?v = 0 \<and> total_extra_principal_this_year ?v = 0 \<and>
      remaining_balance (state_after ?v) = 0"
    using simulate_paid_off_year [OF assms(3), of m] by simp
  have stay: "month_balance p m ?v k = 0 \<longrightarrow>
      (\<forall>k' \<ge> k. run_months p m (monthly_cash_flow_gross ?v) (year_start_balance ?v) k' =
         run_months p m (monthly_cash_flow_gross ?v) (year_start_balance ?v) k)"
    by (simp add: month_balance_def run_months_stay_zero_later)
  have later: "remaining_balance (state_after ?v) = 0 \<longrightarrow>
      (\<forall>j. i < j \<and> j < holding_years p \<longrightarrow>
         principal_paid (simulate p m ! j) = 0 \<and>
         total_extra_principal_this_year (simulate p m ! j) = 0 \<and>
         remaining_balance (state_after (simulate p m ! j)) = 0)"
  proof (intro impI allI)
    fix j
    assume z: "remaining_balance (state_after ?v) = 0" and j: "i < j \<and> j < holding_years p"
    then have "i \<le> j - 1" "j - 1 < holding_years p" by linarith+
    from simulate_stays_paid_off [OF assms(1,2) z this]
    have "remaining_balance (state_after (simulate p m ! (j - 1))) = 0" .
    with j have "year_start_balance (simulate p m ! j) = 0"
      by (simp add: simulate_start_balance)
    with simulate_paid_off_year [of j p m] j
    show "principal_paid (simulate p m ! j) = 0 \<and>
         total_extra_principal_this_year (simulate p m ! j) = 0 \<and>
         remaining_balance (state_after (simulate p m ! j)) = 0" by simp
  qed
  have e1: "0 \<le> LoanBalance (map emit (simulate p m) ! i)"
    using nn assms(3) by (simp add: len emit_simps round2_nonneg)
  have e2: "0 < i \<longrightarrow>
      LoanBalance (map emit (simulate p m) ! i) \<le> LoanBalance (map emit (simulate p m) ! (i - 1))"
  proof
    assume "0 < i"
    with start have "year_start_balance ?v = remaining_balance (state_after (simulate p m ! (i - 1)))"
      by simp
    with yb(1) have "remaining_balance (state_after ?v) \<le>
        remaining_balance (state_after (simulate p m ! (i - 1)))" by simp
    with assms(3) show "LoanBalance (map emit (simulate p m) ! i) \<le>
        LoanBalance (map emit (simulate p m) ! (i - 1))"
      by (simp add: len emit_simps round2_mono)
  qed
  note c = calculate_investment_projections_Inr [OF assms(2)]
  note m0 = me(1) [unfolded month_balance_def]
  note m12 = me(2) [unfolded month_balance_def]
  note m1 = yb(2) [OF assms(4), unfolded month_balance_def]
  note m2 = yb(3) [OF assms(4), unfolded month_balance_def]
  note m3 = stay [unfolded month_balance_def]
  note top = yb(1)
  show ?thesis unfolding Let_def
    by (intro conjI) (fact c len start m0 m12 m1 m2 m3 nn top zero later e1 e2)+
qed



theorem loan_balance_non_increasing_witness:
  "valid_inputs payoff_example \<and> monthly_mortgage payoff_example = Inr 100 \<and>
   2 < holding_years payoff_example \<and>
   year_start_balance (simulate payoff_example 100 ! 2) = 0 \<and>
   principal_paid (simulate payoff_example 100 ! 2) = 0 \<and>
   total_extra_principal_this_year (simulate payoff_example 100 ! 2) = 0 \<and>
   remaining_balance (state_after (simulate payoff_example 100 ! 2)) = 0 \<and>
   LoanBalance (map emit (simulate payoff_example 100) ! 2) \<le>
   LoanBalance (map emit (simulate payoff_example 100) ! 1)"
proof -
  have v: "valid_inputs payoff_example" by (simp add: valid_inputs_def payoff_example_def)
  have h: "2 < holding_years payoff_example" by (simp add: payoff_example_def)
  have k: "(0::nat) < 12" by simp
  let ?v = "simulate payoff_example 100 ! 2"
  from loan_balance_non_increasing [OF v payoff_example_mortgage h k]
  have start: "year_start_balance ?v =
      (if (2::nat) = 0 then loan_amount payoff_example
       else remaining_balance (state_after (simulate payoff_example 100 ! (2 - 1))))"
    and zero: "year_start_balance ?v = 0 \<longrightarrow>
      principal_paid ?v = 0 \<and> total_extra_principal_this_year ?v = 0 \<and>
      remaining_balance (state_after ?v) = 0"
    and le: "(0::nat) < 2 \<longrightarrow>
      LoanBalance (map emit (simulate payoff_example 100) ! 2) \<le>
      LoanBalance (map emit (simulate payoff_example 100) ! (2 - 1))"
    unfolding Let_def by blast+
  from start have s0: "year_start_balance ?v = 0"
    by (simp add: payoff_example_year_2(1))
  from le have le': "LoanBalance (map emit (simulate payoff_example 100) ! 2) \<le>
      LoanBalance (map emit (simulate payoff_example 100) ! 1)" by simp
  from v payoff_example_mortgage h s0 zero le' show ?thesis by blast
qed

lemma simulate_compounding:
  "i < holding_years p \<Longrightarrow>
     year (simulate p m ! i) = Suc i \<and>
     current_property_value (state_after (simulate p m ! i)) =
       purchase_price p * (1 + annual_appreciation p) ^ i \<and>
     current_monthly_rent (state_after (simulate p m ! i)) =
       monthly_rent p * (1 + annual_rent_increase p) ^ i"
proof (induction i)
  case 0
  then show ?case by (simp add: simulate_nth_0 year_body_simps initial_state_def)
next
  case (Suc i)
  then show ?case by (simp add: simulate_nth_Suc year_body_simps)
qed

lemma simulate_figures:
  assumes "i < holding_years p"
  shows "monthly_property_tax (simulate p m ! i) =
           (current_property_value (state_after (simulate p m ! i)) * annual_tax_rate p) / 12"
    and "effective_monthly_rent (simulate p m ! i) =
           current_monthly_rent (state_after (simulate p m ! i)) * (1 - vacancy_rate p)"
    and "monthly_cash_flow_gross (simulate p m ! i) =
           effective_monthly_rent (simulate p m ! i) -
           (m + monthly_property_tax (simulate p m ! i) + monthly_insurance p +
            (purchase_price p * ongoing_maintenance_pct p) / 12)"
    and "equity (simulate p m ! i) =
           current_property_value (state_after (simulate p m ! i)) -
           remaining_balance (state_after (simulate p m ! i))"
    and "annual_cash_flow (simulate p m ! i) =
           (monthly_cash_flow_gross (simulate p m ! i) * 12) -
           total_extra_principal_this_year (simulate p m ! i)"
    and "cash_on_cash (simulate p m ! i) =
           (if total_cash_invested p > 0
            then annual_cash_flow (simulate p m ! i) / total_cash_invested p * 100 else 0)"
    and "total_cash_invested_adjusted (simulate p m ! i) =
           total_cash_invested p + cumulative_extra_principal (state_after (simulate p m ! i))"
    and "roi_pct (simulate p m ! i) =
           (if total_cash_invested_adjusted (simulate p m ! i) > 0
            then (cumulative_cash_flow (state_after (simulate p m ! i)) +
                  equity (simulate p m ! i) - total_cash_invested_adjusted (simulate p m ! i)) /
                 total_cash_invested_adjusted (simulate p m ! i) * 100
            else 0)"
proof -
  from simulate_is_year_body [OF assms, of m] obtain s where
    v: "simulate p m ! i = year_body p m (Suc i) s" by blast
  show "monthly_property_tax (simulate p m ! i) =
           (current_property_value (state_after (simulate p m ! i)) * annual_tax_rate p) / 12"
    unfolding v by (rule year_body_simps)
  show "effective_monthly_rent (simulate p m ! i) =
           current_monthly_rent (state_after (simulate p m ! i)) * (1 - vacancy_rate p)"
    unfolding v by (rule year_body_simps)
  show "monthly_cash_flow_gross (simulate p m ! i) =
           effective_monthly_rent (simulate p m ! i) -
           (m + monthly_property_tax (simulate p m ! i) + monthly_insurance p +
            (purchase_price p * ongoing_maintenance_pct p) / 12)"
    unfolding v by (simp only: year_body_simps(8) year_body_simps(6))
  show "equity (simulate p m ! i) =
           current_property_value (state_after (simulate p m ! i)) -
           remaining_balance (state_after (simulate p m ! i))"
    unfolding v by (rule year_body_totals)
  show "annual_cash_flow (simulate p m ! i) =
           (monthly_cash_flow_gross (simulate p m ! i) * 12) -
           total_extra_principal_this_year (simulate p m ! i)"
    unfolding v by (rule year_body_totals)
  show "cash_on_cash (simulate p m ! i) =
           (if total_cash_invested p > 0
            then annual_cash_flow (simulate p m ! i) / total_cash_invested p * 100 else 0)"
    unfolding v by (rule year_body_returns)
  show "total_cash_invested_adjusted (simulate p m ! i) =
           total_cash_invested p + cumulative_extra_principal (state_after (simulate p m ! i))"
    unfolding v by (rule year_body_totals)
  show "roi_pct (simulate p m ! i) =
           (if total_cash_invested_adjusted (simulate p m ! i) > 0
            then (cumulative_cash_flow (state_after (simulate p m ! i)) +
                  equity (simulate p m ! i) - total_cash_invested_adjusted (simulate p m ! i)) /
                 total_cash_invested_adjusted (simulate p m ! i) * 100
            else 0)"
    unfolding v by (rule year_body_returns)
qed

lemma simulate_cumulative:
  assumes "i < holding_years p"
  shows "cumulative_cash_flow (state_after (simulate p m ! i)) =
           (if i = 0 then 0 else cumulative_cash_flow (state_after (simulate p m ! (i - 1)))) +
           annual_cash_flow (simulate p m ! i)"
    and "cumulative_extra_principal (state_after (simulate p m ! i)) =
           (if i = 0 then 0 else cumulative_extra_principal (state_after (simulate p m ! (i - 1)))) +
           total_extra_principal_this_year (simulate p m ! i)"
proof -
  show "cumulative_cash_flow (state_after (simulate p m ! i)) =
           (if i = 0 then 0 else cumulative_cash_flow (state_after (simulate p m ! (i - 1)))) +
           annual_cash_flow (simulate p m ! i)"
  proof (cases i)
    case 0
    with assms show ?thesis by (simp add: simulate_nth_0 year_body_totals initial_state_def)
  next
    case (Suc j)
    with assms show ?thesis by (simp add: simulate_nth_Suc year_body_totals)
  qed
  show "cumulative_extra_principal (state_after (simulate p m ! i)) =
           (if i = 0 then 0 else cumulative_extra_principal (state_after (simulate p m ! (i - 1)))) +
           total_extra_principal_this_year (simulate p m ! i)"
  proof (cases i)
    case 0
    with assms show ?thesis by (simp add: simulate_nth_0 year_body_totals initial_state_def)
  next
    case (Suc j)
    with assms show ?thesis by (simp add: simulate_nth_Suc year_body_totals)
  qed
qed

lemma run_months_extra_open:
  "0 < snd (snd (run_months p m g b k)) \<Longrightarrow>
     fst (snd (run_months p m g b k)) =
       of_nat k * (extra_payment_monthly p + (if g > 0 then g * cashflow_to_principal_pct p else 0))"
proof (induction k)
  case 0
  then show ?case by (simp add: run_months_0)
next
  case (Suc k)
  obtain pp te tb where a: "run_months p m g b k = (pp, te, tb)"
    by (cases "run_months p m g b k")
  define E where "E = extra_payment_monthly p + (if g > 0 then g * cashflow_to_principal_pct p else 0)"
  define P where "P = m - tb * monthly_rate p"
  have step: "run_months p m g b (Suc k) =
      (if tb > 0 then (pp + (P + min E (tb - P)), te + min E (tb - P),
                       if tb - (P + min E (tb - P)) < 0 then 0 else tb - (P + min E (tb - P)))
       else (pp, te, tb))"
    by (simp add: run_months_Suc a month_step_eval E_def P_def)
  from Suc.prems have pos: "0 < tb" unfolding step by (simp split: if_splits)
  with Suc.IH a have te: "te = of_nat k * E" by (simp add: E_def)
  from Suc.prems pos have "min E (tb - P) = E"
    unfolding step by (simp add: min_def split: if_splits)
  with pos te show ?case unfolding step by (simp add: E_def [symmetric] algebra_simps)
qed

lemma simulate_closed_later:
  assumes "remaining_balance (state_after (simulate p m ! j)) \<le> 0"
  shows "j \<le> i \<Longrightarrow> i < holding_years p \<Longrightarrow>
     remaining_balance (state_after (simulate p m ! i)) \<le> 0"
proof (induction i)
  case 0
  with assms show ?case by simp
next
  case (Suc i)
  show ?case
  proof (cases "j = Suc i")
    case True
    with assms show ?thesis by simp
  next
    case False
    with Suc have z: "remaining_balance (state_after (simulate p m ! i)) \<le> 0" by simp
    from Suc.prems have "year_start_balance (simulate p m ! Suc i) \<le> 0"
      by (simp add: simulate_start_balance z)
    with simulate_paid_off_year(3) [OF Suc.prems(2), of m] show ?thesis by simp
  qed
qed

lemma simulate_open_earlier:
  assumes "i < holding_years p" "0 < remaining_balance (state_after (simulate p m ! i))" "j \<le> i"
  shows "0 < remaining_balance (state_after (simulate p m ! j))"
proof (rule ccontr)
  assume "\<not> 0 < remaining_balance (state_after (simulate p m ! j))"
  then have "remaining_balance (state_after (simulate p m ! j)) \<le> 0" by simp
  from simulate_closed_later [OF this assms(3,1)] assms(2) show False by simp
qed

lemma year_extra_open:
  assumes "i < holding_years p"
    and "0 < remaining_balance (state_after (simulate p m ! i))"
  shows "total_extra_principal_this_year (simulate p m ! i) =
     12 * (extra_payment_monthly p +
       (if monthly_cash_flow_gross (simulate p m ! i) > 0
        then monthly_cash_flow_gross (simulate p m ! i) * cashflow_to_principal_pct p else 0))"
proof -
  from simulate_is_year_body [OF assms(1), of m] obtain s where
    v: "simulate p m ! i = year_body p m (Suc i) s" by blast
  from assms(2) have "0 < snd (snd (run_months p m (monthly_cash_flow_gross (year_body p m (Suc i) s))
      (remaining_balance s) 12))"
    unfolding v by (simp add: year_body_months)
  from run_months_extra_open [OF this]
  show ?thesis unfolding v by (simp add: year_body_months)
qed

lemma year_extra_open_nonneg:
  assumes "0 \<le> extra_payment_monthly p" "0 \<le> cashflow_to_principal_pct p"
    and "i < holding_years p"
    and "0 < remaining_balance (state_after (simulate p m ! i))"
  shows "0 \<le> total_extra_principal_this_year (simulate p m ! i)"
  unfolding year_extra_open [OF assms(3,4)] using assms(1,2) by simp

lemma cumulative_extra_open_mono:
  assumes "0 \<le> extra_payment_monthly p" "0 \<le> cashflow_to_principal_pct p"
    and "i < holding_years p"
    and "0 < remaining_balance (state_after (simulate p m ! i))"
  shows "k \<le> i \<Longrightarrow> j \<le> k \<Longrightarrow>
     cumulative_extra_principal (state_after (simulate p m ! j)) \<le>
     cumulative_extra_principal (state_after (simulate p m ! k))"
proof (induction k)
  case 0
  then show ?case by simp
next
  case (Suc k)
  show ?case
  proof (cases "j = Suc k")
    case True
    then show ?thesis by simp
  next
    case False
    with Suc have ih: "cumulative_extra_principal (state_after (simulate p m ! j)) \<le>
        cumulative_extra_principal (state_after (simulate p m ! k))" by simp
    from Suc.prems assms(3) have h: "Suc k < holding_years p" by simp
    from simulate_open_earlier [OF assms(3,4) Suc.prems(1)]
    have "0 < remaining_balance (state_after (simulate p m ! Suc k))" .
    from year_extra_open_nonneg [OF assms(1,2) h this] simulate_cumulative(2) [OF h, of m] ih
    show ?thesis by simp
  qed
qed

lemma run_months_plain:
  assumes "monthly_rate p = 0" "extra_payment_monthly p = 0" "cashflow_to_principal_pct p = 0"
    and "0 < m"
  shows "of_nat k * m \<le> b \<Longrightarrow> run_months p m g b k = (of_nat k * m, 0, b - of_nat k * m)"
proof (induction k)
  case 0
  then show ?case by (simp add: run_months_0)
next
  case (Suc k)
  from Suc.prems assms(4) have le: "of_nat k * m + m \<le> b" by (simp add: algebra_simps)
  with assms(4) have "of_nat k * m \<le> b" by simp
  with Suc.IH have a: "run_months p m g b k = (of_nat k * m, 0, b - of_nat k * m)" by simp
  from le assms(4) have pos: "0 < b - of_nat k * m" and ge: "m \<le> b - of_nat k * m" by simp_all
  from pos ge show ?case
    by (simp add: run_months_Suc a month_step_eval assms(1-3) min_def algebra_simps)
qed

lemma plain_year:
  assumes "monthly_rate p = 0" "extra_payment_monthly p = 0" "cashflow_to_principal_pct p = 0"
    and "0 < m"
  shows "i < holding_years p \<Longrightarrow> of_nat (12 * Suc i) * m \<le> loan_amount p \<Longrightarrow>
     remaining_balance (state_after (simulate p m ! i)) = loan_amount p - of_nat (12 * Suc i) * m \<and>
     total_extra_principal_this_year (simulate p m ! i) = 0 \<and>
     cumulative_extra_principal (state_after (simulate p m ! i)) = 0"
proof (induction i)
  case 0
  then have "of_nat 12 * m \<le> remaining_balance (initial_state p)" by (simp add: initial_state_def)
  from run_months_plain [OF assms this] 0 show ?case
    by (simp add: simulate_nth_0 year_body_months year_body_totals initial_state_def)
next
  case (Suc i)
  from Suc.prems assms(4) have "of_nat (12 * Suc i) * m \<le> loan_amount p"
    by (simp add: algebra_simps)
  with Suc have ih: "remaining_balance (state_after (simulate p m ! i)) =
      loan_amount p - of_nat (12 * Suc i) * m"
    "cumulative_extra_principal (state_after (simulate p m ! i)) = 0" by simp_all
  let ?b = "remaining_balance (state_after (simulate p m ! i))"
  from Suc.prems(2) ih(1) have "of_nat 12 * m \<le> ?b"
    by (simp add: algebra_simps)
  from run_months_plain [OF assms this]
  have rm: "\<And>g. run_months p m g ?b 12 = (12 * m, 0, ?b - 12 * m)" by simp
  have v: "simulate p m ! Suc i = year_body p m (Suc (Suc i)) (state_after (simulate p m ! i))"
    using Suc.prems(1) by (rule simulate_nth_Suc)
  have "remaining_balance (state_after (simulate p m ! Suc i)) = ?b - 12 * m"
    unfolding v by (simp add: year_body_months rm)
  with ih(1) have 1: "remaining_balance (state_after (simulate p m ! Suc i)) =
      loan_amount p - of_nat (12 * Suc (Suc i)) * m"
    by (simp add: algebra_simps)
  have 2: "total_extra_principal_this_year (simulate p m ! Suc i) = 0"
    unfolding v by (simp add: year_body_months rm)
  have 3: "cumulative_extra_principal (state_after (simulate p m ! Suc i)) = 0"
    using 2 ih(2) unfolding v by (simp add: year_body_totals)
  from 1 2 3 show ?case by blast
qed

lemma rounding_example_mortgage: "monthly_mortgage rounding_example = Inr (2000 / 9)"
  by (simp add: monthly_mortgage_def rounding_example_def total_months_def loan_amount_def
      down_payment_def)

lemma rounding_example_year_4:
  "current_property_value (state_after (simulate rounding_example (2000 / 9) ! 3)) = 8869743 / 80"
  "remaining_balance (state_after (simulate rounding_example (2000 / 9) ! 3)) = 208000 / 3"
proof -
  have h: "3 < holding_years rounding_example" by (simp add: rounding_example_def)
  from simulate_compounding [OF h, of "2000 / 9"]
  show "current_property_value (state_after (simulate rounding_example (2000 / 9) ! 3)) = 8869743 / 80"
    by (simp add: rounding_example_def power3_eq_cube)
  have "rat_of_nat (12 * Suc 3) * (2000 / 9) \<le> loan_amount rounding_example"
    by (simp add: loan_amount_def down_payment_def rounding_example_def)
  from plain_year [OF _ _ _ _ h this]
  show "remaining_balance (state_after (simulate rounding_example (2000 / 9) ! 3)) = 208000 / 3"
    by (simp add: monthly_rate_def loan_amount_def down_payment_def rounding_example_def)
qed

lemma round2_eval: "round2 (8869743 / 80) = 11087179 / 100" "round2 (208000 / 3) = 6933333 / 100"
  "round2 (9969229 / 240) = 830769 / 20"
  by (simp_all add: round2_def round_half_even_def Let_def)


lemma round2_diff: "\<bar>round2 (b - c) - (round2 b - round2 c)\<bar> \<le> 1 / 100"
proof -
  define k where "k = round_half_even ((b - c) * 100) - round_half_even (b * 100) +
    round_half_even (c * 100)"
  have e: "round2 (b - c) - (round2 b - round2 c) = of_int k / 100"
    unfolding round2_def k_def by (simp add: field_simps)
  have "\<bar>of_int k / 100 :: rat\<bar> \<le> 3 / 200"
    using round2_error [of "b - c"] round2_error [of b] round2_error [of c] e by linarith
  then have "(of_int k :: rat) \<le> 3 / 2" and "(of_int (- k) :: rat) \<le> 3 / 2"
    by (simp_all add: abs_le_iff)
  then have "k \<le> \<lfloor>3 / 2 :: rat\<rfloor>" and "- k \<le> \<lfloor>3 / 2 :: rat\<rfloor>"
    by (simp_all only: le_floor_iff)
  then have "\<bar>k\<bar> \<le> 1" by simp
  then have "\<bar>of_int k :: rat\<bar> \<le> 1" by (metis of_int_abs of_int_le_1_iff)
  then have "\<bar>of_int k / 100 :: rat\<bar> \<le> 1 / 100" by simp
  then show ?thesis unfolding e .
qed

subsection \<open>Equity\<close>

text \<open>
  Claim C9, as amended. In every simulated year the equity the loop computes is exactly
  the appreciated property value minus the remaining balance, and the emitted
  \<open>Equity\<close> is that difference rounded to two decimals. The emitted figure is
  therefore within half a cent of the exact difference, and within one cent of the
  difference of the emitted \<open>PropertyValue\<close> and \<open>LoanBalance\<close>, which are rounded
  separately.
\<close>

theorem emitted_equity_is_rounded_difference:
  assumes "monthly_mortgage p = Inr m" and "i < holding_years p"
  shows "calculate_investment_projections p = Inr (map emit (simulate p m)) \<and>
     (let v = simulate p m ! i;
          r = map emit (simulate p m) ! i;
          value = current_property_value (state_after v);
          balance = remaining_balance (state_after v)
      in value = purchase_price p * (1 + annual_appreciation p) ^ i \<and>
         equity v = value - balance \<and>
         Equity r = round2 (value - balance) \<and>
         PropertyValue r = round2 value \<and>
         LoanBalance r = round2 balance \<and>
         \<bar>Equity r - (value - balance)\<bar> \<le> 1 / 200 \<and>
         \<bar>Equity r - (PropertyValue r - LoanBalance r)\<bar> \<le> 1 / 100)"
proof -
  let ?v = "simulate p m ! i"
  have n: "map emit (simulate p m) ! i = emit ?v"
    using assms(2) by (simp add: length_simulate)
  note eq = simulate_figures(4) [OF assms(2), of m]
  from simulate_compounding [OF assms(2), of m]
  have val: "current_property_value (state_after ?v) =
      purchase_price p * (1 + annual_appreciation p) ^ i" by simp
  have e: "Equity (emit ?v) =
      round2 (current_property_value (state_after ?v) - remaining_balance (state_after ?v))"
    by (simp add: emit_simps eq)
  have b1: "\<bar>Equity (emit ?v) -
      (current_property_value (state_after ?v) - remaining_balance (state_after ?v))\<bar> \<le> 1 / 200"
    unfolding e by (rule round2_error)
  have b2: "\<bar>Equity (emit ?v) - (PropertyValue (emit ?v) - LoanBalance (emit ?v))\<bar> \<le> 1 / 100"
    using round2_diff [of "current_property_value (state_after ?v)" "remaining_balance (state_after ?v)"]
    by (simp add: emit_simps eq)
  from calculate_investment_projections_Inr [OF assms(1)] val eq e b1 b2
  show ?thesis unfolding Let_def n by (simp add: emit_simps)
qed

theorem emitted_equity_is_rounded_difference_witness:
  "monthly_mortgage rounding_example = Inr (2000 / 9) \<and>
   3 < holding_years rounding_example \<and>
   Equity (map emit (simulate rounding_example (2000 / 9)) ! 3) = 830769 / 20"
proof -
  have h: "3 < holding_years rounding_example" by (simp add: rounding_example_def)
  from emitted_equity_is_rounded_difference [OF rounding_example_mortgage h]
  have "Equity (map emit (simulate rounding_example (2000 / 9)) ! 3) =
      round2 (current_property_value (state_after (simulate rounding_example (2000 / 9) ! 3)) -
              remaining_balance (state_after (simulate rounding_example (2000 / 9) ! 3)))"
    by (simp only: Let_def)
  then show ?thesis
    by (simp add: rounding_example_mortgage h rounding_example_year_4 round2_eval)
qed

text \<open>
  The claim as stated fails in year 4 of a 100000 purchase at 20% down, no interest,
  thirty years, 3.5% appreciation: the exact difference is 41538.4541..., the emitted
  equity is 41538.45, and the emitted property value minus the emitted loan balance is
  41538.46.
\<close>

theorem emitted_equity_not_exact:
  "calculate_investment_projections rounding_example =
     Inr (map emit (simulate rounding_example (2000 / 9))) \<and>
   current_property_value (state_after (simulate rounding_example (2000 / 9) ! 3)) -
     remaining_balance (state_after (simulate rounding_example (2000 / 9) ! 3)) = 9969229 / 240 \<and>
   Equity (map emit (simulate rounding_example (2000 / 9)) ! 3) = 830769 / 20 \<and>
   PropertyValue (map emit (simulate rounding_example (2000 / 9)) ! 3) -
     LoanBalance (map emit (simulate rounding_example (2000 / 9)) ! 3) = 2076923 / 50"
proof -
  have h: "3 < holding_years rounding_example" by (simp add: rounding_example_def)
  have n: "map emit (simulate rounding_example (2000 / 9)) ! 3 =
      emit (simulate rounding_example (2000 / 9) ! 3)"
    using h by (simp add: length_simulate)
  have 1: "equity (simulate rounding_example (2000 / 9) ! 3) = 9969229 / 240"
    by (simp add: simulate_figures(4) [OF h] rounding_example_year_4)
  show ?thesis unfolding n
    by (simp add: calculate_investment_projections_Inr [OF rounding_example_mortgage] 1
        emit_simps rounding_example_year_4 round2_eval)
qed

subsection \<open>Appreciation and rent growth\<close>

text \<open>
  Claim C7. Year 1 uses the purchase price and the initial rent; every later year
  multiplies the value and the rent of the year before once by one plus the annual rate,
  before the year's tax, effective rent and gross cash flow are computed from them. So in
  year \<open>n\<close> the property value is the purchase price times
  \<open>(1 + annual_appreciation) ^ (n - 1)\<close>, the rent likewise, and the record of the
  year carries both rounded to two decimals.
\<close>

theorem appreciation_compounds_from_year_two:
  assumes "monthly_mortgage p = Inr m" and "1 \<le> n" and "n \<le> holding_years p"
  shows "calculate_investment_projections p = Inr (map emit (simulate p m)) \<and>
     (let v = simulate p m ! (n - 1);
          r = map emit (simulate p m) ! (n - 1);
          value = purchase_price p * (1 + annual_appreciation p) ^ (n - 1);
          rent = monthly_rent p * (1 + annual_rent_increase p) ^ (n - 1)
      in year v = n \<and> Year r = n \<and>
         current_property_value (state_after v) = value \<and>
         current_monthly_rent (state_after v) = rent \<and>
         (2 \<le> n \<longrightarrow>
            current_property_value (state_after v) =
              current_property_value (state_after (simulate p m ! (n - 2))) *
              (1 + annual_appreciation p) \<and>
            current_monthly_rent (state_after v) =
              current_monthly_rent (state_after (simulate p m ! (n - 2))) *
              (1 + annual_rent_increase p)) \<and>
         monthly_property_tax v = (value * annual_tax_rate p) / 12 \<and>
         effective_monthly_rent v = rent * (1 - vacancy_rate p) \<and>
         monthly_cash_flow_gross v =
           rent * (1 - vacancy_rate p) -
           (m + (value * annual_tax_rate p) / 12 + monthly_insurance p +
            (purchase_price p * ongoing_maintenance_pct p) / 12) \<and>
         PropertyValue r = round2 value \<and> MonthlyRent r = round2 rent)"
proof -
  from assms(2,3) have i: "n - 1 < holding_years p" by simp
  let ?v = "simulate p m ! (n - 1)"
  have nth: "map emit (simulate p m) ! (n - 1) = emit ?v"
    using i by (simp add: length_simulate)
  from simulate_compounding [OF i, of m] assms(2)
  have c: "year ?v = n"
    "current_property_value (state_after ?v) = purchase_price p * (1 + annual_appreciation p) ^ (n - 1)"
    "current_monthly_rent (state_after ?v) = monthly_rent p * (1 + annual_rent_increase p) ^ (n - 1)"
    by simp_all
  have prev: "2 \<le> n \<longrightarrow>
      current_property_value (state_after ?v) =
        current_property_value (state_after (simulate p m ! (n - 2))) * (1 + annual_appreciation p) \<and>
      current_monthly_rent (state_after ?v) =
        current_monthly_rent (state_after (simulate p m ! (n - 2))) * (1 + annual_rent_increase p)"
  proof
    assume n2: "2 \<le> n"
    then obtain j where j: "n = Suc (Suc j)" by (metis Suc_le_D numeral_2_eq_2 Suc_le_mono)
    with assms(3) have "j < holding_years p" by simp
    from simulate_compounding [OF this, of m] c(2,3) j
    show "current_property_value (state_after ?v) =
        current_property_value (state_after (simulate p m ! (n - 2))) * (1 + annual_appreciation p) \<and>
      current_monthly_rent (state_after ?v) =
        current_monthly_rent (state_after (simulate p m ! (n - 2))) * (1 + annual_rent_increase p)"
      by simp
  qed
  note f = simulate_figures(1-3) [OF i, of m]
  from calculate_investment_projections_Inr [OF assms(1)] c prev f
  show ?thesis unfolding Let_def nth by (simp add: emit_simps)
qed

theorem appreciation_compounds_from_year_two_witness:
  "monthly_mortgage rounding_example = Inr (2000 / 9) \<and> (1::nat) \<le> 4 \<and>
   4 \<le> holding_years rounding_example \<and> (2::nat) \<le> 4 \<and>
   current_property_value (state_after (simulate rounding_example (2000 / 9) ! 3)) =
     8869743 / 80 \<and>
   PropertyValue (map emit (simulate rounding_example (2000 / 9)) ! 3) = 11087179 / 100"
proof -
  have h: "4 \<le> holding_years rounding_example" by (simp add: rounding_example_def)
  have one: "(1::nat) \<le> 4" by simp
  have c: "purchase_price rounding_example * (1 + annual_appreciation rounding_example) ^ (4 - 1) =
      8869743 / 80"
    by (simp add: rounding_example_def power3_eq_cube)
  from appreciation_compounds_from_year_two [OF rounding_example_mortgage one h]
  have "current_property_value (state_after (simulate rounding_example (2000 / 9) ! (4 - 1))) =
      purchase_price rounding_example * (1 + annual_appreciation rounding_example) ^ (4 - 1)"
    and "PropertyValue (map emit (simulate rounding_example (2000 / 9)) ! (4 - 1)) =
      round2 (purchase_price rounding_example * (1 + annual_appreciation rounding_example) ^ (4 - 1))"
    by (simp_all only: Let_def)
  then have "current_property_value (state_after (simulate rounding_example (2000 / 9) ! (4 - 1))) =
      8869743 / 80"
    and "PropertyValue (map emit (simulate rounding_example (2000 / 9)) ! (4 - 1)) =
      round2 (8869743 / 80)"
    unfolding c by blast+
  then show ?thesis
    by (simp add: rounding_example_mortgage h round2_eval)
qed


subsection \<open>Return ratios\<close>

text \<open>
  Claim C8, as amended. Cash-on-cash return is the year's annual cash flow divided by
  down payment plus initial repairs, times 100, when that sum is positive, and 0
  otherwise; total ROI is cumulative cash flow plus equity minus the cumulative cash
  invested (down payment, repairs and all extra principal paid to date), divided by the
  cumulative cash invested, times 100, when that is positive, and 0 otherwise. The record
  carries both rounded to two decimals.
\<close>

theorem return_ratios_guarded:
  assumes "monthly_mortgage p = Inr m" and "i < holding_years p"
  shows "calculate_investment_projections p = Inr (map emit (simulate p m)) \<and>
     (let v = simulate p m ! i;
          r = map emit (simulate p m) ! i;
          invested = down_payment p + initial_repairs p;
          invested_adjusted = invested + cumulative_extra_principal (state_after v)
      in cash_on_cash v = (if invested > 0 then annual_cash_flow v / invested * 100 else 0) \<and>
         roi_pct v =
           (if invested_adjusted > 0
            then (cumulative_cash_flow (state_after v) + equity v - invested_adjusted) /
                 invested_adjusted * 100
            else 0) \<and>
         CashOnCashReturn r = round2 (cash_on_cash v) \<and>
         TotalROI r = round2 (roi_pct v))"
proof -
  have n: "map emit (simulate p m) ! i = emit (simulate p m ! i)"
    using assms(2) by (simp add: length_simulate)
  note f = simulate_figures(6-8) [OF assms(2), of m]
  from calculate_investment_projections_Inr [OF assms(1)] f
  show ?thesis unfolding Let_def n
    by (simp add: emit_simps total_cash_invested_def)
qed

lemma payoff_example_cash_flow:
  assumes "i < holding_years payoff_example"
  shows "monthly_cash_flow_gross (simulate payoff_example 100 ! i) = 200"
proof -
  from simulate_compounding [OF assms, of 100]
  have r: "current_monthly_rent (state_after (simulate payoff_example 100 ! i)) = 300"
    by (simp add: payoff_example_def)
  show ?thesis
    by (simp add: simulate_figures(1-3) [OF assms] r) (simp add: payoff_example_def)
qed

text \<open>
  The claim as stated fails with no down payment and no repairs: the quotient it names
  has a zero divisor, and the code reports a cash-on-cash return of 0.
\<close>

theorem cash_on_cash_without_investment:
  "calculate_investment_projections payoff_example =
     Inr (map emit (simulate payoff_example 100)) \<and>
   down_payment payoff_example + initial_repairs payoff_example = 0 \<and>
   annual_cash_flow (simulate payoff_example 100 ! 0) = 1260 \<and>
   spec_percent_of (annual_cash_flow (simulate payoff_example 100 ! 0))
     (down_payment payoff_example + initial_repairs payoff_example) = None \<and>
   cash_on_cash (simulate payoff_example 100 ! 0) = 0 \<and>
   CashOnCashReturn (map emit (simulate payoff_example 100) ! 0) = 0"
proof -
  have h: "0 < holding_years payoff_example" by (simp add: payoff_example_def)
  have n: "map emit (simulate payoff_example 100) ! 0 = emit (simulate payoff_example 100 ! 0)"
    using h by (simp add: length_simulate)
  have z: "down_payment payoff_example + initial_repairs payoff_example = 0"
    by (simp add: down_payment_def payoff_example_def)
  have a: "annual_cash_flow (simulate payoff_example 100 ! 0) = 1260"
    by (simp add: simulate_figures(5) [OF h] payoff_example_cash_flow [OF h]
        payoff_example_year_1)
  have c: "cash_on_cash (simulate payoff_example 100 ! 0) = 0"
    using z by (simp add: simulate_figures(6) [OF h] total_cash_invested_def)
  show ?thesis unfolding n
    by (simp add: calculate_investment_projections_Inr [OF payoff_example_mortgage] z a c
        spec_percent_of_def emit_simps round2_zero)
qed

lemma rounding_example_first_year:
  "annual_cash_flow (simulate rounding_example (2000 / 9) ! 0) = 82450 / 3"
proof -
  have h: "0 < holding_years rounding_example" by (simp add: rounding_example_def)
  from simulate_compounding [OF h, of "2000 / 9"]
  have v: "current_property_value (state_after (simulate rounding_example (2000 / 9) ! 0)) = 100000"
    and r: "current_monthly_rent (state_after (simulate rounding_example (2000 / 9) ! 0)) = 3000"
    by (simp_all add: rounding_example_def)
  have "rat_of_nat (12 * Suc 0) * (2000 / 9) \<le> loan_amount rounding_example"
    by (simp add: loan_amount_def down_payment_def rounding_example_def)
  from plain_year [OF _ _ _ _ h this]
  have e: "total_extra_principal_this_year (simulate rounding_example (2000 / 9) ! 0) = 0"
    by (simp add: monthly_rate_def rounding_example_def)
  have g: "monthly_cash_flow_gross (simulate rounding_example (2000 / 9) ! 0) = 41225 / 18"
    by (simp add: simulate_figures(1-3) [OF h] v r) (simp add: rounding_example_def)
  show ?thesis by (simp add: simulate_figures(5) [OF h] g e)
qed

theorem return_ratios_guarded_witness:
  "monthly_mortgage rounding_example = Inr (2000 / 9) \<and>
   0 < holding_years rounding_example \<and>
   CashOnCashReturn (map emit (simulate rounding_example (2000 / 9)) ! 0) = 6871 / 50"
proof -
  have h: "0 < holding_years rounding_example" by (simp add: rounding_example_def)
  have d: "down_payment rounding_example + initial_repairs rounding_example = 20000"
    by (simp add: down_payment_def rounding_example_def)
  from return_ratios_guarded [OF rounding_example_mortgage h]
  have "CashOnCashReturn (map emit (simulate rounding_example (2000 / 9)) ! 0) =
      round2 (if down_payment rounding_example + initial_repairs rounding_example > 0
              then annual_cash_flow (simulate rounding_example (2000 / 9) ! 0) /
                   (down_payment rounding_example + initial_repairs rounding_example) * 100
              else 0)"
    by (simp only: Let_def)
  also have "\<dots> = 6871 / 50"
    unfolding d rounding_example_first_year
    by (simp add: round2_def round_half_even_def Let_def)
  finally show ?thesis by (simp add: rounding_example_mortgage h)
qed


subsection \<open>Cumulative cash flow and cumulative extra principal\<close>

text \<open>
  Claim C3, as amended. Cumulative cash flow grows each year by that year's net annual
  cash flow, and cumulative extra principal by that year's extra principal; so the
  emitted cumulative cash flow does not decrease into a year whose annual cash flow is
  non-negative. With a fixed extra payment and a cash-flow fraction that are not
  negative, take a year whose emitted loan balance is positive. In that year and in
  every earlier year the extra principal is twelve times the monthly extra amount (the
  fixed payment plus the fraction of a positive gross cash flow), so it is not negative,
  and the emitted cumulative extra principal does not decrease from any of these years
  to a later one of them. Nothing is said of the year in which the loan is paid off, nor
  of the years after it.
\<close>

theorem cumulative_totals_by_year:
  assumes "0 \<le> extra_payment_monthly p" and "0 \<le> cashflow_to_principal_pct p"
    and "monthly_mortgage p = Inr m" and "i < holding_years p"
  shows "calculate_investment_projections p = Inr (map emit (simulate p m)) \<and>
     (let v = simulate p m ! i;
          rows = map emit (simulate p m)
      in cumulative_cash_flow (state_after v) =
           (if i = 0 then 0 else cumulative_cash_flow (state_after (simulate p m ! (i - 1)))) +
           annual_cash_flow v \<and>
         cumulative_extra_principal (state_after v) =
           (if i = 0 then 0 else cumulative_extra_principal (state_after (simulate p m ! (i - 1)))) +
           total_extra_principal_this_year v \<and>
         (0 < i \<and> 0 \<le> annual_cash_flow v \<longrightarrow>
            CumulativeCashFlow (rows ! (i - 1)) \<le> CumulativeCashFlow (rows ! i)) \<and>
         (0 < LoanBalance (rows ! i) \<longrightarrow>
            (\<forall>j \<le> i.
               total_extra_principal_this_year (simulate p m ! j) =
                 12 * (extra_payment_monthly p +
                   (if monthly_cash_flow_gross (simulate p m ! j) > 0
                    then monthly_cash_flow_gross (simulate p m ! j) * cashflow_to_principal_pct p
                    else 0)) \<and>
               0 \<le> total_extra_principal_this_year (simulate p m ! j) \<and>
               0 \<le> ExtraPrincipalThisYear (rows ! j)) \<and>
            (\<forall>k \<le> i. \<forall>j \<le> k.
               CumulativeExtraPrincipal (rows ! j) \<le> CumulativeExtraPrincipal (rows ! k))))"
proof -
  let ?v = "simulate p m ! i"
  let ?u = "simulate p m ! (i - 1)"
  let ?rows = "map emit (simulate p m)"
  note cum = simulate_cumulative [OF assms(4), of m]
  have n: "\<And>j. j \<le> i \<Longrightarrow> ?rows ! j = emit (simulate p m ! j)"
    using assms(4) by (simp add: length_simulate)
  have cf: "0 < i \<and> 0 \<le> annual_cash_flow ?v \<longrightarrow>
      CumulativeCashFlow (?rows ! (i - 1)) \<le> CumulativeCashFlow (?rows ! i)"
  proof
    assume a: "0 < i \<and> 0 \<le> annual_cash_flow ?v"
    with cum(1) have "cumulative_cash_flow (state_after ?u) \<le> cumulative_cash_flow (state_after ?v)"
      by simp
    then show "CumulativeCashFlow (?rows ! (i - 1)) \<le> CumulativeCashFlow (?rows ! i)"
      by (simp add: n emit_simps round2_mono)
  qed
  have xp: "0 < LoanBalance (?rows ! i) \<longrightarrow>
      (\<forall>j \<le> i.
         total_extra_principal_this_year (simulate p m ! j) =
           12 * (extra_payment_monthly p +
             (if monthly_cash_flow_gross (simulate p m ! j) > 0
              then monthly_cash_flow_gross (simulate p m ! j) * cashflow_to_principal_pct p
              else 0)) \<and>
         0 \<le> total_extra_principal_this_year (simulate p m ! j) \<and>
         0 \<le> ExtraPrincipalThisYear (?rows ! j)) \<and>
      (\<forall>k \<le> i. \<forall>j \<le> k.
         CumulativeExtraPrincipal (?rows ! j) \<le> CumulativeExtraPrincipal (?rows ! k))"
  proof (intro impI conjI allI)
    assume "0 < LoanBalance (?rows ! i)"
    then have "0 < round2 (remaining_balance (state_after ?v))" by (simp add: n emit_simps)
    with round2_nonpos [of "remaining_balance (state_after ?v)"]
    have pos: "0 < remaining_balance (state_after ?v)" by (cases "remaining_balance (state_after ?v) \<le> 0") simp_all
    {
      fix j assume j: "j \<le> i"
      with assms(4) have h: "j < holding_years p" by simp
      note o = simulate_open_earlier [OF assms(4) pos j]
      show "total_extra_principal_this_year (simulate p m ! j) =
           12 * (extra_payment_monthly p +
             (if monthly_cash_flow_gross (simulate p m ! j) > 0
              then monthly_cash_flow_gross (simulate p m ! j) * cashflow_to_principal_pct p
              else 0))"
        by (rule year_extra_open [OF h o])
      show nn: "0 \<le> total_extra_principal_this_year (simulate p m ! j)"
        by (rule year_extra_open_nonneg [OF assms(1,2) h o])
      from nn show "0 \<le> ExtraPrincipalThisYear (?rows ! j)"
        by (simp add: n [OF j] emit_simps round2_nonneg)
    }
    {
      fix k j assume k: "k \<le> i" and j: "j \<le> k"
      from cumulative_extra_open_mono [OF assms(1,2,4) pos k j]
      show "CumulativeExtraPrincipal (?rows ! j) \<le> CumulativeExtraPrincipal (?rows ! k)"
        using k j by (simp add: n emit_simps round2_mono)
    }
  qed
  from calculate_investment_projections_Inr [OF assms(3)] cum cf xp
  show ?thesis unfolding Let_def by blast
qed

lemma extra_payment_example_mortgage: "monthly_mortgage extra_payment_example = Inr 400"
  by (simp add: monthly_mortgage_def extra_payment_example_def total_months_def loan_amount_def
      down_payment_def)

lemma extra_payment_example_months:
  "run_months extra_payment_example 400 500 96000 12 = (6600, 1800, 89400)"
  "run_months extra_payment_example 400 500 89400 12 = (6600, 1800, 82800)"
  by (simp_all add: run_months_def funpow_12 month_step_eval extra_payment_example_def
      monthly_rate_def)

lemma extra_payment_example_cash_flow:
  assumes "i < holding_years extra_payment_example"
  shows "monthly_cash_flow_gross (simulate extra_payment_example 400 ! i) = 500"
proof -
  from simulate_compounding [OF assms, of 400]
  have r: "current_monthly_rent (state_after (simulate extra_payment_example 400 ! i)) = 1000"
    by (simp add: extra_payment_example_def)
  show ?thesis
    by (simp add: simulate_figures(1-3) [OF assms] r) (simp add: extra_payment_example_def)
qed

lemma extra_payment_example_year_1:
  "remaining_balance (state_after (simulate extra_payment_example 400 ! 0)) = 89400"
  "total_extra_principal_this_year (simulate extra_payment_example 400 ! 0) = 1800"
  "cumulative_extra_principal (state_after (simulate extra_payment_example 400 ! 0)) = 1800"
  "cumulative_cash_flow (state_after (simulate extra_payment_example 400 ! 0)) = 4200"
proof -
  let ?p = extra_payment_example
  have h: "0 < holding_years ?p" by (simp add: extra_payment_example_def)
  have b: "remaining_balance (initial_state ?p) = 96000"
    by (simp add: initial_state_def loan_amount_def down_payment_def extra_payment_example_def)
  have g: "monthly_cash_flow_gross (year_body ?p 400 (Suc 0) (initial_state ?p)) = 500"
    using extra_payment_example_cash_flow [OF h] by (simp add: simulate_nth_0 [OF h])
  show "remaining_balance (state_after (simulate ?p 400 ! 0)) = 89400"
    by (simp add: simulate_nth_0 [OF h] year_body_months b g extra_payment_example_months)
  show e: "total_extra_principal_this_year (simulate ?p 400 ! 0) = 1800"
    by (simp add: simulate_nth_0 [OF h] year_body_months b g extra_payment_example_months)
  show "cumulative_extra_principal (state_after (simulate ?p 400 ! 0)) = 1800"
    using e by (simp add: simulate_cumulative(2) [OF h])
  show "cumulative_cash_flow (state_after (simulate ?p 400 ! 0)) = 4200"
    using e extra_payment_example_cash_flow [OF h]
    by (simp add: simulate_cumulative(1) [OF h] simulate_figures(5) [OF h])
qed

lemma extra_payment_example_year_2:
  "remaining_balance (state_after (simulate extra_payment_example 400 ! Suc 0)) = 82800"
  "total_extra_principal_this_year (simulate extra_payment_example 400 ! Suc 0) = 1800"
  "annual_cash_flow (simulate extra_payment_example 400 ! Suc 0) = 4200"
  "cumulative_extra_principal (state_after (simulate extra_payment_example 400 ! Suc 0)) = 3600"
  "cumulative_cash_flow (state_after (simulate extra_payment_example 400 ! Suc 0)) = 8400"
proof -
  let ?p = extra_payment_example
  have h: "Suc 0 < holding_years ?p" by (simp add: extra_payment_example_def)
  note v = simulate_nth_Suc [OF h, of 400]
  have g: "monthly_cash_flow_gross
      (year_body ?p 400 (Suc (Suc 0)) (state_after (simulate ?p 400 ! 0))) = 500"
    using extra_payment_example_cash_flow [OF h] by (simp add: v)
  show "remaining_balance (state_after (simulate ?p 400 ! Suc 0)) = 82800"
    unfolding v
    by (simp add: year_body_months g extra_payment_example_year_1 extra_payment_example_months)
  show e: "total_extra_principal_this_year (simulate ?p 400 ! Suc 0) = 1800"
    unfolding v
    by (simp add: year_body_months g extra_payment_example_year_1 extra_payment_example_months)
  show a: "annual_cash_flow (simulate ?p 400 ! Suc 0) = 4200"
    using e extra_payment_example_cash_flow [OF h] by (simp add: simulate_figures(5) [OF h])
  show "cumulative_extra_principal (state_after (simulate ?p 400 ! Suc 0)) = 3600"
    using e by (simp add: simulate_cumulative(2) [OF h] extra_payment_example_year_1)
  show "cumulative_cash_flow (state_after (simulate ?p 400 ! Suc 0)) = 8400"
    using a by (simp add: simulate_cumulative(1) [OF h] extra_payment_example_year_1)
qed

theorem cumulative_totals_by_year_witness:
  "0 \<le> extra_payment_monthly extra_payment_example \<and>
   0 \<le> cashflow_to_principal_pct extra_payment_example \<and>
   monthly_mortgage extra_payment_example = Inr 400 \<and>
   1 < holding_years extra_payment_example \<and> (0::nat) < 1 \<and>
   0 \<le> annual_cash_flow (simulate extra_payment_example 400 ! 1) \<and>
   0 < LoanBalance (map emit (simulate extra_payment_example 400) ! 1) \<and>
   total_extra_principal_this_year (simulate extra_payment_example 400 ! 1) = 1800 \<and>
   0 \<le> ExtraPrincipalThisYear (map emit (simulate extra_payment_example 400) ! 1) \<and>
   CumulativeCashFlow (map emit (simulate extra_payment_example 400) ! 0) \<le>
   CumulativeCashFlow (map emit (simulate extra_payment_example 400) ! 1) \<and>
   CumulativeExtraPrincipal (map emit (simulate extra_payment_example 400) ! 0) \<le>
   CumulativeExtraPrincipal (map emit (simulate extra_payment_example 400) ! 1) \<and>
   CumulativeExtraPrincipal (map emit (simulate extra_payment_example 400) ! 0) = 1800 \<and>
   CumulativeExtraPrincipal (map emit (simulate extra_payment_example 400) ! 1) = 3600"
proof -
  let ?p = extra_payment_example
  let ?rows = "map emit (simulate ?p 400)"
  have e: "0 \<le> extra_payment_monthly ?p" and c: "0 \<le> cashflow_to_principal_pct ?p"
    by (simp_all add: extra_payment_example_def)
  have h: "Suc 0 < holding_years ?p" by (simp add: extra_payment_example_def)
  have len: "length (simulate ?p 400) = 2"
    by (simp add: length_simulate extra_payment_example_def)
  have r: "round2 82800 = 82800" "round2 1800 = 1800" "round2 3600 = 3600"
    using round2_hundredths [of 8280000] round2_hundredths [of 180000]
      round2_hundredths [of 360000] by simp_all
  have lb: "0 < LoanBalance (?rows ! Suc 0)"
    by (simp add: len emit_simps extra_payment_example_year_2 r)
  have a: "0 \<le> annual_cash_flow (simulate ?p 400 ! Suc 0)"
    by (simp add: extra_payment_example_year_2)
  have g: "monthly_cash_flow_gross (simulate ?p 400 ! Suc 0) = 500"
    by (rule extra_payment_example_cash_flow [OF h])
  have c0: "CumulativeExtraPrincipal (?rows ! 0) = 1800"
    by (simp add: len emit_simps extra_payment_example_year_1 r)
  have c1: "CumulativeExtraPrincipal (?rows ! Suc 0) = 3600"
    by (simp add: len emit_simps extra_payment_example_year_2 r)
  note t = cumulative_totals_by_year [OF e c extra_payment_example_mortgage h, unfolded Let_def]
  from t a have cf: "CumulativeCashFlow (?rows ! 0) \<le> CumulativeCashFlow (?rows ! Suc 0)"
    by simp
  from t lb have x: "total_extra_principal_this_year (simulate ?p 400 ! Suc 0) =
      12 * (extra_payment_monthly ?p +
        (if monthly_cash_flow_gross (simulate ?p 400 ! Suc 0) > 0
         then monthly_cash_flow_gross (simulate ?p 400 ! Suc 0) * cashflow_to_principal_pct ?p
         else 0))"
    and xe: "0 \<le> ExtraPrincipalThisYear (?rows ! Suc 0)"
    and cx: "CumulativeExtraPrincipal (?rows ! 0) \<le> CumulativeExtraPrincipal (?rows ! Suc 0)"
    by blast+
  from x have x': "total_extra_principal_this_year (simulate ?p 400 ! Suc 0) = 1800"
    unfolding g by (simp add: extra_payment_example_def)
  from e c h a lb x' xe cf cx c0 c1 extra_payment_example_mortgage
  show ?thesis by simp
qed

text \<open>
  The year that pays the loan off is left out above for a reason: in the example with
  95 of extra principal a month, the first month of year 2 owes 60 against a payment of
  100, the extra principal of that month is the smaller of 95 and 60 - 100, and the
  emitted cumulative extra principal falls from 1140 to 1100.
\<close>

lemma payoff_example_extra_principal_falls:
  "ExtraPrincipalThisYear (map emit (simulate payoff_example 100) ! 1) = - 40 \<and>
   CumulativeExtraPrincipal (map emit (simulate payoff_example 100) ! 0) = 1140 \<and>
   CumulativeExtraPrincipal (map emit (simulate payoff_example 100) ! 1) = 1100 \<and>
   LoanBalance (map emit (simulate payoff_example 100) ! 1) = 0"
proof -
  have len: "length (simulate payoff_example 100) = 3"
    by (simp add: length_simulate payoff_example_def)
  have r: "round2 (- 40) = - 40" "round2 1140 = 1140" "round2 1100 = 1100"
    using round2_hundredths [of "- 4000"] round2_hundredths [of 114000]
      round2_hundredths [of 110000] by simp_all
  show ?thesis
    by (simp add: len emit_simps payoff_example_year_1 payoff_example_year_2 r round2_zero)
qed

lemma negative_cash_flow_example_mortgage:
  "monthly_mortgage negative_cash_flow_example = Inr (10000 / 9)"
  by (simp add: monthly_mortgage_def negative_cash_flow_example_def total_months_def
      loan_amount_def down_payment_def)

lemma negative_cash_flow_example_years:
  "annual_cash_flow (simulate negative_cash_flow_example (10000 / 9) ! 0) = - (44950 / 3)"
  "annual_cash_flow (simulate negative_cash_flow_example (10000 / 9) ! Suc 0) = - (89315 / 6)"
  "total_extra_principal_this_year (simulate negative_cash_flow_example (10000 / 9) ! 0) = 0"
  "total_extra_principal_this_year (simulate negative_cash_flow_example (10000 / 9) ! Suc 0) = 0"
proof -
  let ?p = negative_cash_flow_example
  have h0: "0 < holding_years ?p" and h1: "Suc 0 < holding_years ?p"
    by (simp_all add: negative_cash_flow_example_def)
  have l0: "rat_of_nat (12 * Suc 0) * (10000 / 9) \<le> loan_amount ?p"
    and l1: "rat_of_nat (12 * Suc (Suc 0)) * (10000 / 9) \<le> loan_amount ?p"
    by (simp_all add: loan_amount_def down_payment_def negative_cash_flow_example_def)
  from plain_year [OF _ _ _ _ h0 l0]
  show e0: "total_extra_principal_this_year (simulate ?p (10000 / 9) ! 0) = 0"
    by (simp add: monthly_rate_def negative_cash_flow_example_def)
  from plain_year [OF _ _ _ _ h1 l1]
  show e1: "total_extra_principal_this_year (simulate ?p (10000 / 9) ! Suc 0) = 0"
    by (simp add: monthly_rate_def negative_cash_flow_example_def)
  from simulate_compounding [OF h0, of "10000 / 9"]
  have v0: "current_property_value (state_after (simulate ?p (10000 / 9) ! 0)) = 500000"
    and r0: "current_monthly_rent (state_after (simulate ?p (10000 / 9) ! 0)) = 1000"
    by (simp_all add: negative_cash_flow_example_def)
  from simulate_compounding [OF h1, of "10000 / 9"]
  have v1: "current_property_value (state_after (simulate ?p (10000 / 9) ! Suc 0)) = 515000"
    and r1: "current_monthly_rent (state_after (simulate ?p (10000 / 9) ! Suc 0)) = 1025"
    by (simp_all add: negative_cash_flow_example_def)
  have g0: "monthly_cash_flow_gross (simulate ?p (10000 / 9) ! 0) = - (22475 / 18)"
    by (simp add: simulate_figures(1-3) [OF h0] v0 r0) (simp add: negative_cash_flow_example_def)
  have g1: "monthly_cash_flow_gross (simulate ?p (10000 / 9) ! Suc 0) = - (89315 / 72)"
    by (simp add: simulate_figures(1-3) [OF h1] v1 r1) (simp add: negative_cash_flow_example_def)
  show "annual_cash_flow (simulate ?p (10000 / 9) ! 0) = - (44950 / 3)"
    by (simp add: simulate_figures(5) [OF h0] g0 e0)
  show "annual_cash_flow (simulate ?p (10000 / 9) ! Suc 0) = - (89315 / 6)"
    by (simp add: simulate_figures(5) [OF h1] g1 e1)
qed

text \<open>
  The claim as stated fails where the rent does not cover the expenses: with a rent of
  1000 on a 500000 purchase the cumulative cash flow is -14983.33 after year 1 and
  -29869.17 after year 2.
\<close>

theorem cumulative_cash_flow_decreases:
  "valid_inputs negative_cash_flow_example \<and>
   calculate_investment_projections negative_cash_flow_example =
     Inr (map emit (simulate negative_cash_flow_example (10000 / 9))) \<and>
   length (simulate negative_cash_flow_example (10000 / 9)) = 2 \<and>
   CumulativeCashFlow (map emit (simulate negative_cash_flow_example (10000 / 9)) ! 0) =
     - (1498333 / 100) \<and>
   CumulativeCashFlow (map emit (simulate negative_cash_flow_example (10000 / 9)) ! 1) =
     - (2986917 / 100) \<and>
   CumulativeCashFlow (map emit (simulate negative_cash_flow_example (10000 / 9)) ! 1) <
   CumulativeCashFlow (map emit (simulate negative_cash_flow_example (10000 / 9)) ! 0)"
proof -
  let ?p = negative_cash_flow_example
  have v: "valid_inputs ?p" by (simp add: valid_inputs_def negative_cash_flow_example_def)
  have h0: "0 < holding_years ?p" and h1: "Suc 0 < holding_years ?p"
    by (simp_all add: negative_cash_flow_example_def)
  have len: "length (simulate ?p (10000 / 9)) = 2"
    by (simp add: length_simulate negative_cash_flow_example_def)
  have c0: "cumulative_cash_flow (state_after (simulate ?p (10000 / 9) ! 0)) = - (44950 / 3)"
    by (simp add: simulate_cumulative(1) [OF h0] negative_cash_flow_example_years)
  have c1: "cumulative_cash_flow (state_after (simulate ?p (10000 / 9) ! Suc 0)) = - (179215 / 6)"
    by (simp add: simulate_cumulative(1) [OF h1] negative_cash_flow_example_years c0)
  have r0: "round2 (- (44950 / 3)) = - (1498333 / 100)"
    and r1: "round2 (- (179215 / 6)) = - (2986917 / 100)"
    by (simp_all add: round2_def round_half_even_def Let_def)
  show ?thesis
    by (simp add: v len calculate_investment_projections_Inr [OF negative_cash_flow_example_mortgage]
        emit_simps c0 c1 r0 r1)
qed

subsection \<open>The cash-flow calculator and the break-even search\<close>

lemma sort_values_desc_single: "sort_values_desc [r] ys \<longleftrightarrow> ys = [r]"
  by (auto simp: sort_values_desc_def)

lemma calculate_monthly_cash_flow_single:
  "calculate_monthly_cash_flow [r] ir lm mi dp out \<longleftrightarrow> out = [cash_flow_row ir lm mi dp r]"
  by (simp add: calculate_monthly_cash_flow_def sort_values_desc_single)

lemma fgt_irrefl: "\<not> fgt v v"
  by (cases v) simp_all

lemma cash_flow_row_columns:
  "ID (cash_flow_row ir lm mi dp r) = ID r"
  "Price (cash_flow_row ir lm mi dp r) = Price r"
  "RentEstimate (cash_flow_row ir lm mi dp r) = RentEstimate r"
  "PropertyTax (cash_flow_row ir lm mi dp r) = Fin (round2 ((Price r * (125 / 10000)) / 12))"
  "MonthlyMortgage (cash_flow_row ir lm mi dp r) =
     fround2 (np_div (((1 - dp) * Price r) * (ir / 12 * (1 + ir / 12) ^ lm))
                     (((1 + ir / 12) ^ lm) - 1))"
  "MonthlyCashFlow (cash_flow_row ir lm mi dp r) =
     fround2 (fsub (Fin (RentEstimate r))
       (fadd (fadd (PropertyTax (cash_flow_row ir lm mi dp r))
                   (MonthlyMortgage (cash_flow_row ir lm mi dp r)))
             (Fin mi)))"
  unfolding cash_flow_row_def Let_def by simp_all

lemma cash_flow_row_idem:
  "cash_flow_row ir lm mi dp (cash_flow_row ir' lm' mi' dp' r) = cash_flow_row ir lm mi dp r"
  unfolding cash_flow_row_def Let_def by simp

lemma search_down_payment_None:
  "search_down_payment ir lm mi row ds = None \<longleftrightarrow>
     (\<forall>d \<in> set ds. \<not> fgt (MonthlyCashFlow (cash_flow_row ir lm mi d row)) (Fin 0))"
  by (induction ds) (simp_all add: Let_def)

lemma search_down_payment_Some:
  "search_down_payment ir lm mi row ds = Some (r, pct) \<Longrightarrow>
     \<exists>k < length ds. r = cash_flow_row ir lm mi (ds ! k) row \<and> pct = round2 (ds ! k) \<and>
       fgt (MonthlyCashFlow r) (Fin 0) \<and>
       (\<forall>j < k. \<not> fgt (MonthlyCashFlow (cash_flow_row ir lm mi (ds ! j) row)) (Fin 0))"
proof (induction ds)
  case Nil
  then show ?case by simp
next
  case (Cons d ds)
  show ?case
  proof (cases "fgt (MonthlyCashFlow (cash_flow_row ir lm mi d row)) (Fin 0)")
    case True
    with Cons.prems have "r = cash_flow_row ir lm mi d row" "pct = round2 d"
      by (simp_all add: Let_def)
    with True show ?thesis by (intro exI [of _ 0]) simp
  next
    case False
    with Cons.prems have "search_down_payment ir lm mi row ds = Some (r, pct)"
      by (simp add: Let_def)
    from Cons.IH [OF this] obtain k where k: "k < length ds"
      "r = cash_flow_row ir lm mi (ds ! k) row" "pct = round2 (ds ! k)"
      "fgt (MonthlyCashFlow r) (Fin 0)"
      "\<forall>j < k. \<not> fgt (MonthlyCashFlow (cash_flow_row ir lm mi (ds ! j) row)) (Fin 0)"
      by blast
    have "\<forall>j < Suc k. \<not> fgt (MonthlyCashFlow (cash_flow_row ir lm mi ((d # ds) ! j) row)) (Fin 0)"
    proof (intro allI impI)
      fix j assume "j < Suc k"
      with False k(5) show "\<not> fgt (MonthlyCashFlow (cash_flow_row ir lm mi ((d # ds) ! j) row)) (Fin 0)"
        by (cases j) simp_all
    qed
    with k(1-4) show ?thesis by (intro exI [of _ "Suc k"]) simp
  qed
qed

lemma arange_scan:
  "arange (20 / 100) 1 (1 / 100) = map (\<lambda>i. (20 + of_nat i) / 100) [0..<80]"
proof -
  have "\<lceil>(1 - 20 / 100) / (1 / 100) :: rat\<rceil> = 80" by simp
  then show ?thesis by (simp add: arange_def add_divide_distrib)
qed

lemma round2_scan: "round2 ((20 + of_nat k) / 100) = (20 + of_nat k) / 100"
  using round2_hundredths [of "20 + int k"] by simp


lemma scan_None:
  "search_down_payment ir lm mi row (arange (20 / 100) 1 (1 / 100)) = None \<longleftrightarrow>
     (\<forall>k < 80. \<not> fgt (MonthlyCashFlow (cash_flow_row ir lm mi ((20 + of_nat k) / 100) row)) (Fin 0))"
  unfolding arange_scan search_down_payment_None by (auto simp del: upt_Suc)

lemma scan_Some:
  assumes "search_down_payment ir lm mi row (arange (20 / 100) 1 (1 / 100)) = Some (r, pct)"
  shows "\<exists>k < 80. pct = (20 + of_nat k) / 100 \<and> r = cash_flow_row ir lm mi pct row \<and>
       fgt (MonthlyCashFlow r) (Fin 0) \<and>
       (\<forall>j < k. \<not> fgt (MonthlyCashFlow (cash_flow_row ir lm mi ((20 + of_nat j) / 100) row)) (Fin 0))"
proof -
  let ?ds = "map (\<lambda>i. (20 + rat_of_nat i) / 100) [0..<80]"
  from search_down_payment_Some [OF assms [unfolded arange_scan]]
  obtain k where k: "k < length ?ds" "r = cash_flow_row ir lm mi (?ds ! k) row"
    "pct = round2 (?ds ! k)" "fgt (MonthlyCashFlow r) (Fin 0)"
    "\<forall>j < k. \<not> fgt (MonthlyCashFlow (cash_flow_row ir lm mi (?ds ! j) row)) (Fin 0)"
    by blast
  from k(1) have k80: "k < 80" by simp
  then have nth: "?ds ! k = (20 + of_nat k) / 100" by (simp del: upt_Suc)
  have pct: "pct = (20 + of_nat k) / 100" unfolding k(3) nth by (rule round2_scan)
  have r: "r = cash_flow_row ir lm mi pct row" by (simp only: k(2) nth pct)
  have before: "\<forall>j < k. \<not> fgt (MonthlyCashFlow (cash_flow_row ir lm mi ((20 + of_nat j) / 100) row)) (Fin 0)"
  proof (intro allI impI)
    fix j assume jk: "j < k"
    with k80 have "?ds ! j = (20 + of_nat j) / 100" by (simp del: upt_Suc)
    with k(5) jk show "\<not> fgt (MonthlyCashFlow (cash_flow_row ir lm mi ((20 + of_nat j) / 100) row)) (Fin 0)"
      by metis
  qed
  show ?thesis by (intro exI [of _ k] conjI k80 pct r k(4) before)
qed

lemma searched_cash_flow_finite:
  assumes "d1 < 1" "d2 < 1"
    and pos: "fgt (MonthlyCashFlow (cash_flow_row ir lm mi d2 row)) (Fin 0)"
    and neg: "\<not> fgt (MonthlyCashFlow (cash_flow_row ir lm mi d1 row)) (Fin 0)"
  shows "\<exists>c. c \<le> 0 \<and> MonthlyCashFlow (cash_flow_row ir lm mi d1 row) = Fin c"
proof (cases "(1 + ir / 12) ^ lm - 1 = 0")
  case False
  then obtain c where c: "MonthlyCashFlow (cash_flow_row ir lm mi d1 row) = Fin c"
    by (simp add: cash_flow_row_columns np_div_def fsub_def)
  with neg have "c \<le> 0" by simp
  with c show ?thesis by blast
next
  case True
  define t where "t = Price row * (ir / 12 * (1 + ir / 12) ^ lm)"
  have mort: "\<And>d. MonthlyMortgage (cash_flow_row ir lm mi d row) =
      (if 0 < (1 - d) * t then PInf else if (1 - d) * t < 0 then NInf else NaN)"
    using True by (simp add: cash_flow_row_columns(5) np_div_def t_def mult.assoc)
  consider "t = 0" | "0 < t" | "t < 0" by linarith
  then show ?thesis
  proof cases
    case 1
    then have "MonthlyCashFlow (cash_flow_row ir lm mi d2 row) = NaN"
      by (simp add: cash_flow_row_columns(6) cash_flow_row_columns(4) mort fsub_def)
    with pos show ?thesis by simp
  next
    case 2
    with assms(2) have "0 < (1 - d2) * t" by simp
    then have "MonthlyCashFlow (cash_flow_row ir lm mi d2 row) = NInf"
      by (simp add: cash_flow_row_columns(6) cash_flow_row_columns(4) mort fsub_def)
    with pos show ?thesis by simp
  next
    case 3
    with assms(1) have "(1 - d1) * t < 0" by (simp add: mult_pos_neg)
    then have "MonthlyCashFlow (cash_flow_row ir lm mi d1 row) = PInf"
      by (simp add: cash_flow_row_columns(6) cash_flow_row_columns(4) mort fsub_def not_less [symmetric] less_imp_le)
    with neg show ?thesis by simp
  qed
qed

subsection \<open>The break-even search of one record\<close>

text \<open>
  The body of the loop, for one record that carries the cash flow computed at 20% down
  with the same rate, term and insurance. If that cash flow is positive, the record is
  kept unchanged at exactly 0.20, with no search. If it is not, the fractions 0.20, 0.21,
  ..., 0.99 are tried in this order and the first one whose recomputed cash flow is
  positive is kept, with the row recomputed at it: every smaller fraction of the scan has
  a cash flow that is not positive, the fraction kept is at least 0.21, and the fraction
  kept minus 0.01 gives a finite cash flow that is at most 0. When no fraction of the
  scan gives a positive cash flow, nothing is kept.
\<close>

lemma row_step_first_positive:
  assumes "MonthlyCashFlow row = MonthlyCashFlow (cash_flow_row ir lm mi (20 / 100) row)"
  shows "arange (20 / 100) 1 (1 / 100) = map (\<lambda>k. (20 + of_nat k) / 100) [0..<80] \<and>
     (fgt (MonthlyCashFlow row) (Fin 0) \<longrightarrow>
        break_even_row_step ir lm mi row = Some (row, 20 / 100)) \<and>
     (\<not> fgt (MonthlyCashFlow row) (Fin 0) \<longrightarrow>
        (case break_even_row_step ir lm mi row of
           None \<Rightarrow>
             \<forall>k < 80. \<not> fgt (MonthlyCashFlow
                (cash_flow_row ir lm mi ((20 + of_nat k) / 100) row)) (Fin 0)
         | Some (r, pct) \<Rightarrow>
             \<exists>k. 1 \<le> k \<and> k < 80 \<and> pct = (20 + of_nat k) / 100 \<and>
               r = cash_flow_row ir lm mi pct row \<and>
               fgt (MonthlyCashFlow r) (Fin 0) \<and>
               (\<forall>j < k. \<not> fgt (MonthlyCashFlow
                  (cash_flow_row ir lm mi ((20 + of_nat j) / 100) row)) (Fin 0)) \<and>
               \<not> fgt (MonthlyCashFlow
                  (cash_flow_row ir lm mi (pct - 1 / 100) row)) (Fin 0) \<and>
               (\<exists>c. c \<le> 0 \<and>
                  MonthlyCashFlow (cash_flow_row ir lm mi (pct - 1 / 100) row) = Fin c)))"
proof (intro conjI impI)
  show "arange (20 / 100) 1 (1 / 100) = map (\<lambda>k. (20 + of_nat k) / 100) [0..<80]"
    by (rule arange_scan)
next
  assume "fgt (MonthlyCashFlow row) (Fin 0)"
  then show "break_even_row_step ir lm mi row = Some (row, 20 / 100)"
    by (simp add: break_even_row_step_def)
next
  assume neg: "\<not> fgt (MonthlyCashFlow row) (Fin 0)"
  then have step: "break_even_row_step ir lm mi row =
      search_down_payment ir lm mi row (arange (20 / 100) 1 (1 / 100))"
    by (simp add: break_even_row_step_def)
  show "case break_even_row_step ir lm mi row of
           None \<Rightarrow>
             \<forall>k < 80. \<not> fgt (MonthlyCashFlow
                (cash_flow_row ir lm mi ((20 + of_nat k) / 100) row)) (Fin 0)
         | Some (r, pct) \<Rightarrow>
             \<exists>k. 1 \<le> k \<and> k < 80 \<and> pct = (20 + of_nat k) / 100 \<and>
               r = cash_flow_row ir lm mi pct row \<and>
               fgt (MonthlyCashFlow r) (Fin 0) \<and>
               (\<forall>j < k. \<not> fgt (MonthlyCashFlow
                  (cash_flow_row ir lm mi ((20 + of_nat j) / 100) row)) (Fin 0)) \<and>
               \<not> fgt (MonthlyCashFlow
                  (cash_flow_row ir lm mi (pct - 1 / 100) row)) (Fin 0) \<and>
               (\<exists>c. c \<le> 0 \<and>
                  MonthlyCashFlow (cash_flow_row ir lm mi (pct - 1 / 100) row) = Fin c)"
  proof (cases "break_even_row_step ir lm mi row")
    case None
    with step scan_None [of ir lm mi row] show ?thesis by simp
  next
    case (Some hit)
    obtain r pct where hit: "hit = (r, pct)" by (cases hit)
    from Some hit step have "search_down_payment ir lm mi row (arange (20 / 100) 1 (1 / 100)) =
        Some (r, pct)" by simp
    from scan_Some [OF this] obtain k where k: "k < 80" "pct = (20 + of_nat k) / 100"
      "r = cash_flow_row ir lm mi pct row" "fgt (MonthlyCashFlow r) (Fin 0)"
      "\<forall>j < k. \<not> fgt (MonthlyCashFlow (cash_flow_row ir lm mi ((20 + of_nat j) / 100) row)) (Fin 0)"
      by blast
    have k1: "1 \<le> k"
    proof (rule ccontr)
      assume "\<not> 1 \<le> k"
      then have "k = 0" by simp
      with k(2) have "pct = 20 / 100" by simp
      with k(3,4) have "fgt (MonthlyCashFlow (cash_flow_row ir lm mi (20 / 100) row)) (Fin 0)"
        by (simp only:)
      with assms neg show False by metis
    qed
    then obtain j where j: "k = Suc j" by (cases k) simp_all
    then have pm: "pct - 1 / 100 = (20 + of_nat j) / 100"
      unfolding k(2) by (simp add: field_simps)
    from k(5) j have "\<not> fgt (MonthlyCashFlow
        (cash_flow_row ir lm mi ((20 + of_nat j) / 100) row)) (Fin 0)"
      by blast
    then have prev: "\<not> fgt (MonthlyCashFlow (cash_flow_row ir lm mi (pct - 1 / 100) row)) (Fin 0)"
      unfolding pm .
    from k(1,2) have lt: "pct < 1" "pct - 1 / 100 < 1" by simp_all
    from k(3,4) have "fgt (MonthlyCashFlow (cash_flow_row ir lm mi pct row)) (Fin 0)"
      by (simp only:)
    from searched_cash_flow_finite [OF lt(2) lt(1) this prev]
    have fin: "\<exists>c. c \<le> 0 \<and>
        MonthlyCashFlow (cash_flow_row ir lm mi (pct - 1 / 100) row) = Fin c" .
    have "\<exists>k. 1 \<le> k \<and> k < 80 \<and> pct = (20 + of_nat k) / 100 \<and>
        r = cash_flow_row ir lm mi pct row \<and>
        fgt (MonthlyCashFlow r) (Fin 0) \<and>
        (\<forall>j < k. \<not> fgt (MonthlyCashFlow
           (cash_flow_row ir lm mi ((20 + of_nat j) / 100) row)) (Fin 0)) \<and>
        \<not> fgt (MonthlyCashFlow (cash_flow_row ir lm mi (pct - 1 / 100) row)) (Fin 0) \<and>
        (\<exists>c. c \<le> 0 \<and>
           MonthlyCashFlow (cash_flow_row ir lm mi (pct - 1 / 100) row) = Fin c)"
      by (intro exI [of _ k] conjI k1 k prev fin)
    then show ?thesis unfolding Some hit by simp
  qed
qed

lemma break_even_loop_eq:
  "break_even_loop ir lm mi df acc =
     (fst acc @ map fst (List.map_filter (break_even_row_step ir lm mi) df),
      snd acc @ map snd (List.map_filter (break_even_row_step ir lm mi) df))"
  by (induction df arbitrary: acc) (auto simp: List.map_filter_simps split: option.splits)

lemma map2_fst_snd: "map2 f (map fst xs) (map snd xs) = map (\<lambda>(a, b). f a b) xs"
  by (induction xs) auto

lemma calculate_break_even_eq:
  "calculate_break_even_down_payment df ir lm mi =
     (if List.map_filter (break_even_row_step ir lm mi) df = [] then Inl KeyError
      else Inr (map (\<lambda>(r, pct). add_down_payment r pct)
                 (List.map_filter (break_even_row_step ir lm mi) df)))"
proof -
  let ?hits = "List.map_filter (break_even_row_step ir lm mi) df"
  show ?thesis
    by (simp add: calculate_break_even_down_payment_def break_even_loop_eq map2_fst_snd)
qed

lemma calculate_break_even_never_empty:
  "calculate_break_even_down_payment df ir lm mi \<noteq> Inr []"
  by (simp add: calculate_break_even_eq)

lemma calculate_break_even_all_dropped:
  "(\<forall>row \<in> set df. break_even_row_step ir lm mi row = None) \<Longrightarrow>
     calculate_break_even_down_payment df ir lm mi = Inl KeyError"
proof -
  assume "\<forall>row \<in> set df. break_even_row_step ir lm mi row = None"
  then have "List.map_filter (break_even_row_step ir lm mi) df = []"
    by (induction df) (simp_all add: List.map_filter_simps)
  then show ?thesis by (simp add: calculate_break_even_eq)
qed


lemma listing_columns:
  "ID (listing i p r) = i" "Price (listing i p r) = p" "RentEstimate (listing i p r) = r"
  by (simp_all add: listing_def)

lemma analysed_columns:
  "ID (analysed ir lm mi r) = ID r" "Price (analysed ir lm mi r) = Price r"
  "RentEstimate (analysed ir lm mi r) = RentEstimate r"
  "MonthlyCashFlow (analysed ir lm mi r) = MonthlyCashFlow (cash_flow_row ir lm mi (20 / 100) r)"
  by (simp_all add: analysed_def cash_flow_row_columns(1-3))

lemma cash_flow_row_analysed:
  "cash_flow_row ir lm mi dp (analysed ir' lm' mi' r) = cash_flow_row ir lm mi dp r"
  by (simp add: analysed_def cash_flow_row_idem)

lemma one_year_cash_flows:
  "MonthlyCashFlow (cash_flow_row (12 / 100) 12 100 (20 / 100) (listing i 100000 7200)) = Fin (- (11207 / 100))"
  "MonthlyCashFlow (cash_flow_row (12 / 100) 12 100 (21 / 100) (listing i 100000 7200)) = Fin (- (1161 / 50))"
  "MonthlyCashFlow (cash_flow_row (12 / 100) 12 100 (22 / 100) (listing i 100000 7200)) = Fin (3281 / 50)"
  by (simp_all add: cash_flow_row_columns listing_columns np_div_def fsub_def power_divide
      round2_def round_half_even_def Let_def)


lemma one_year_cash_flow_8000:
  "MonthlyCashFlow (cash_flow_row (12 / 100) 12 100 (20 / 100) (listing i 100000 8000)) = Fin (68793 / 100)"
  by (simp add: cash_flow_row_columns listing_columns np_div_def fsub_def power_divide
      round2_def round_half_even_def Let_def)

lemma scan_found:
  assumes "k < 80"
    and "fgt (MonthlyCashFlow (cash_flow_row ir lm mi ((20 + of_nat k) / 100) row)) (Fin 0)"
    and "\<forall>j < k. \<not> fgt (MonthlyCashFlow
           (cash_flow_row ir lm mi ((20 + of_nat j) / 100) row)) (Fin 0)"
  shows "search_down_payment ir lm mi row (arange (20 / 100) 1 (1 / 100)) =
     Some (cash_flow_row ir lm mi ((20 + of_nat k) / 100) row, (20 + of_nat k) / 100)"
proof (cases "search_down_payment ir lm mi row (arange (20 / 100) 1 (1 / 100))")
  case None
  with assms(1,2) show ?thesis unfolding scan_None by blast
next
  case (Some hit)
  obtain r pct where hit: "hit = (r, pct)" by (cases hit)
  from scan_Some [OF Some [unfolded hit]] obtain k' where k': "k' < 80"
    "pct = (20 + of_nat k') / 100" "r = cash_flow_row ir lm mi pct row"
    "fgt (MonthlyCashFlow r) (Fin 0)"
    "\<forall>j < k'. \<not> fgt (MonthlyCashFlow
       (cash_flow_row ir lm mi ((20 + of_nat j) / 100) row)) (Fin 0)"
    by blast
  from k'(2,3,4) have pos: "fgt (MonthlyCashFlow
      (cash_flow_row ir lm mi ((20 + of_nat k') / 100) row)) (Fin 0)"
    by (simp only:)
  from pos assms(3) have "\<not> k' < k" by blast
  moreover from assms(2) k'(5) have "\<not> k < k'" by blast
  ultimately have "k' = k" by simp
  with k'(2,3) Some hit show ?thesis by (simp only:)
qed

lemma one_year_step:
  "break_even_row_step (12 / 100) 12 100 (analysed (12 / 100) 12 100 (listing i 100000 7200)) =
     Some (cash_flow_row (12 / 100) 12 100 (22 / 100) (listing i 100000 7200), 22 / 100)"
proof -
  let ?row = "analysed (12 / 100) 12 100 (listing i 100000 7200)"
  have neg: "\<not> fgt (MonthlyCashFlow ?row) (Fin 0)"
    using one_year_cash_flows(1) [of i] by (simp add: analysed_columns)
  have before: "\<forall>j < 2. \<not> fgt (MonthlyCashFlow
      (cash_flow_row (12 / 100) 12 100 ((20 + of_nat j) / 100) ?row)) (Fin 0)"
  proof (intro allI impI)
    fix j :: nat assume "j < 2"
    then have "j = 0 \<or> j = Suc 0" by auto
    with one_year_cash_flows(1,2) [of i]
    show "\<not> fgt (MonthlyCashFlow
      (cash_flow_row (12 / 100) 12 100 ((20 + of_nat j) / 100) ?row)) (Fin 0)"
      by (auto simp: cash_flow_row_analysed)
  qed
  have at: "fgt (MonthlyCashFlow
      (cash_flow_row (12 / 100) 12 100 ((20 + of_nat 2) / 100) ?row)) (Fin 0)"
    using one_year_cash_flows(3) [of i] by (simp add: cash_flow_row_analysed)
  from scan_found [OF _ at before] neg show ?thesis
    by (simp add: break_even_row_step_def cash_flow_row_analysed)
qed

lemma set_map_filter: "set (List.map_filter f xs) = {y. \<exists>x \<in> set xs. f x = Some y}"
  by (induction xs) (auto simp: List.map_filter_simps split: option.splits)

lemma add_down_payment_columns:
  "MonthlyCashFlow (add_down_payment r pct) = MonthlyCashFlow r"
  "Price (add_down_payment r pct) = Price r"
  "DownPaymentPercent (add_down_payment r pct) = pct"
  "DownPaymentAmount (add_down_payment r pct) = round2 (pct * Price r)"
  by (simp_all add: add_down_payment_def)

lemma search_down_payment_find:
  "search_down_payment ir lm mi row (map f ks) =
     map_option (\<lambda>k. (cash_flow_row ir lm mi (f k) row, round2 (f k)))
       (List.find (\<lambda>k. fgt (MonthlyCashFlow (cash_flow_row ir lm mi (f k) row)) (Fin 0)) ks)"
  by (induction ks) (simp_all add: Let_def)

lemma break_even_row_step_spec:
  "break_even_row_step ir lm mi row =
     (if fgt (MonthlyCashFlow row) (Fin 0) then Some (row, 20 / 100)
      else map_option (\<lambda>pct. (cash_flow_row ir lm mi pct row, pct))
             (spec_first_positive_fraction ir lm mi row))"
  unfolding break_even_row_step_def arange_scan search_down_payment_find
    spec_first_positive_fraction_def
  by (simp only: round2_scan option.map_comp comp_def)

lemma spec_break_even_record_step:
  "spec_break_even_record ir lm mi row =
     map_option (\<lambda>(r, pct). add_down_payment r pct) (break_even_row_step ir lm mi row)"
  unfolding spec_break_even_record_def break_even_row_step_spec
  by (simp add: option.map_comp comp_def)

lemma map_map_filter: "map g (List.map_filter f xs) = List.map_filter (\<lambda>x. map_option g (f x)) xs"
  by (induction xs) (auto simp: List.map_filter_simps split: option.splits)

lemma calculate_break_even_spec:
  "calculate_break_even_down_payment df ir lm mi =
     (if List.map_filter (spec_break_even_record ir lm mi) df = [] then Inl KeyError
      else Inr (List.map_filter (spec_break_even_record ir lm mi) df))"
proof -
  have "List.map_filter (spec_break_even_record ir lm mi) df =
      map (\<lambda>(r, pct). add_down_payment r pct) (List.map_filter (break_even_row_step ir lm mi) df)"
    by (simp add: map_map_filter spec_break_even_record_step [abs_def])
  then show ?thesis by (simp add: calculate_break_even_eq)
qed

subsection \<open>The break-even result reports the first positive fraction\<close>

text \<open>
  Claim C4. The scan is the list of the eighty fractions 0.20, 0.21, ..., 0.99, in
  increasing order. Take a frame whose records carry the cash flow computed at 20% down
  with the same rate, term and insurance. Whenever \<open>calculate_break_even_down_payment\<close>
  returns, the frame it returns holds, in the order of the input, exactly
  the records that the specification's search reports, one for each input record that
  has one; and it does return whenever there is such a record. For an input record whose
  cash flow at 20% is positive that record is the input record at exactly 0.20. For any
  other input record the reported \<open>DownPaymentPercent\<close> is the first fraction of the
  scan whose recomputed cash flow is positive, and the record is the row recomputed at
  it: the reported fraction is at least 0.21, every smaller fraction of the scan has a
  cash flow that is not positive, and the reported fraction minus 0.01 gives a finite
  cash flow that is at most 0. An input record with no positive fraction in the scan has
  no record in the result.
\<close>

theorem break_even_reports_first_positive_fraction:
  assumes "\<forall>row \<in> set df.
     MonthlyCashFlow row = MonthlyCashFlow (cash_flow_row ir lm mi (20 / 100) row)"
  shows "arange (20 / 100) 1 (1 / 100) = map (\<lambda>k. (20 + of_nat k) / 100) [0..<80] \<and>
     (List.map_filter (spec_break_even_record ir lm mi) df \<noteq> [] \<longrightarrow>
        calculate_break_even_down_payment df ir lm mi =
          Inr (List.map_filter (spec_break_even_record ir lm mi) df)) \<and>
     (\<forall>out. calculate_break_even_down_payment df ir lm mi = Inr out \<longrightarrow>
        out = List.map_filter (spec_break_even_record ir lm mi) df) \<and>
     (\<forall>row \<in> set df.
        (fgt (MonthlyCashFlow row) (Fin 0) \<longrightarrow>
           spec_break_even_record ir lm mi row = Some (add_down_payment row (20 / 100))) \<and>
        (\<not> fgt (MonthlyCashFlow row) (Fin 0) \<longrightarrow>
           (case spec_break_even_record ir lm mi row of
              None \<Rightarrow>
                \<forall>k < 80. \<not> fgt (MonthlyCashFlow
                   (cash_flow_row ir lm mi ((20 + of_nat k) / 100) row)) (Fin 0)
            | Some r \<Rightarrow>
                \<exists>k. 1 \<le> k \<and> k < 80 \<and> DownPaymentPercent r = (20 + of_nat k) / 100 \<and>
                  r = add_down_payment
                        (cash_flow_row ir lm mi (DownPaymentPercent r) row) (DownPaymentPercent r) \<and>
                  fgt (MonthlyCashFlow r) (Fin 0) \<and>
                  (\<forall>j < k. \<not> fgt (MonthlyCashFlow
                     (cash_flow_row ir lm mi ((20 + of_nat j) / 100) row)) (Fin 0)) \<and>
                  \<not> fgt (MonthlyCashFlow
                     (cash_flow_row ir lm mi (DownPaymentPercent r - 1 / 100) row)) (Fin 0) \<and>
                  (\<exists>c. c \<le> 0 \<and>
                     MonthlyCashFlow
                       (cash_flow_row ir lm mi (DownPaymentPercent r - 1 / 100) row) = Fin c))))"
proof (intro conjI ballI impI allI)
  show "arange (20 / 100) 1 (1 / 100) = map (\<lambda>k. (20 + of_nat k) / 100) [0..<80]"
    by (rule arange_scan)
next
  assume "List.map_filter (spec_break_even_record ir lm mi) df \<noteq> []"
  then show "calculate_break_even_down_payment df ir lm mi =
      Inr (List.map_filter (spec_break_even_record ir lm mi) df)"
    by (simp add: calculate_break_even_spec)
next
  fix out
  assume "calculate_break_even_down_payment df ir lm mi = Inr out"
  then show "out = List.map_filter (spec_break_even_record ir lm mi) df"
    by (simp add: calculate_break_even_spec split: if_splits)
next
  fix row
  assume "row \<in> set df" and "fgt (MonthlyCashFlow row) (Fin 0)"
  then show "spec_break_even_record ir lm mi row = Some (add_down_payment row (20 / 100))"
    by (simp add: spec_break_even_record_def)
next
  fix row
  assume row: "row \<in> set df" and neg: "\<not> fgt (MonthlyCashFlow row) (Fin 0)"
  from assms row have carried:
    "MonthlyCashFlow row = MonthlyCashFlow (cash_flow_row ir lm mi (20 / 100) row)" by blast
  from row_step_first_positive [OF carried, THEN conjunct2, THEN conjunct2] neg
  have step: "case break_even_row_step ir lm mi row of
      None \<Rightarrow>
        \<forall>k < 80. \<not> fgt (MonthlyCashFlow
           (cash_flow_row ir lm mi ((20 + of_nat k) / 100) row)) (Fin 0)
    | Some (r, pct) \<Rightarrow>
        \<exists>k. 1 \<le> k \<and> k < 80 \<and> pct = (20 + of_nat k) / 100 \<and>
          r = cash_flow_row ir lm mi pct row \<and>
          fgt (MonthlyCashFlow r) (Fin 0) \<and>
          (\<forall>j < k. \<not> fgt (MonthlyCashFlow
             (cash_flow_row ir lm mi ((20 + of_nat j) / 100) row)) (Fin 0)) \<and>
          \<not> fgt (MonthlyCashFlow (cash_flow_row ir lm mi (pct - 1 / 100) row)) (Fin 0) \<and>
          (\<exists>c. c \<le> 0 \<and>
             MonthlyCashFlow (cash_flow_row ir lm mi (pct - 1 / 100) row) = Fin c)"
    by blast
  show "case spec_break_even_record ir lm mi row of
      None \<Rightarrow>
        \<forall>k < 80. \<not> fgt (MonthlyCashFlow
           (cash_flow_row ir lm mi ((20 + of_nat k) / 100) row)) (Fin 0)
    | Some r \<Rightarrow>
        \<exists>k. 1 \<le> k \<and> k < 80 \<and> DownPaymentPercent r = (20 + of_nat k) / 100 \<and>
          r = add_down_payment
                (cash_flow_row ir lm mi (DownPaymentPercent r) row) (DownPaymentPercent r) \<and>
          fgt (MonthlyCashFlow r) (Fin 0) \<and>
          (\<forall>j < k. \<not> fgt (MonthlyCashFlow
             (cash_flow_row ir lm mi ((20 + of_nat j) / 100) row)) (Fin 0)) \<and>
          \<not> fgt (MonthlyCashFlow
             (cash_flow_row ir lm mi (DownPaymentPercent r - 1 / 100) row)) (Fin 0) \<and>
          (\<exists>c. c \<le> 0 \<and>
             MonthlyCashFlow
               (cash_flow_row ir lm mi (DownPaymentPercent r - 1 / 100) row) = Fin c)"
  proof (cases "break_even_row_step ir lm mi row")
    case None
    with step show ?thesis by (simp add: spec_break_even_record_step)
  next
    case (Some hit)
    obtain r0 pct where hit: "hit = (r0, pct)" by (cases hit)
    from step [unfolded Some hit] obtain k where k: "1 \<le> k" "k < 80"
      "pct = (20 + of_nat k) / 100" "r0 = cash_flow_row ir lm mi pct row"
      "fgt (MonthlyCashFlow r0) (Fin 0)"
      "\<forall>j < k. \<not> fgt (MonthlyCashFlow
         (cash_flow_row ir lm mi ((20 + of_nat j) / 100) row)) (Fin 0)"
      "\<not> fgt (MonthlyCashFlow (cash_flow_row ir lm mi (pct - 1 / 100) row)) (Fin 0)"
      "\<exists>c. c \<le> 0 \<and> MonthlyCashFlow (cash_flow_row ir lm mi (pct - 1 / 100) row) = Fin c"
      by auto
    let ?r = "add_down_payment r0 pct"
    have spec: "spec_break_even_record ir lm mi row = Some ?r"
      by (simp add: spec_break_even_record_step Some hit)
    have d: "DownPaymentPercent ?r = pct" by (rule add_down_payment_columns)
    have c: "MonthlyCashFlow ?r = MonthlyCashFlow r0" by (rule add_down_payment_columns)
    have "\<exists>k. 1 \<le> k \<and> k < 80 \<and> DownPaymentPercent ?r = (20 + of_nat k) / 100 \<and>
          ?r = add_down_payment
                (cash_flow_row ir lm mi (DownPaymentPercent ?r) row) (DownPaymentPercent ?r) \<and>
          fgt (MonthlyCashFlow ?r) (Fin 0) \<and>
          (\<forall>j < k. \<not> fgt (MonthlyCashFlow
             (cash_flow_row ir lm mi ((20 + of_nat j) / 100) row)) (Fin 0)) \<and>
          \<not> fgt (MonthlyCashFlow
             (cash_flow_row ir lm mi (DownPaymentPercent ?r - 1 / 100) row)) (Fin 0) \<and>
          (\<exists>c. c \<le> 0 \<and>
             MonthlyCashFlow
               (cash_flow_row ir lm mi (DownPaymentPercent ?r - 1 / 100) row) = Fin c)"
      unfolding d c using k by blast
    then show ?thesis unfolding spec by simp
  qed
qed

lemma one_year_pass_through:
  "break_even_row_step (12 / 100) 12 100 (analysed (12 / 100) 12 100 (listing i 100000 8000)) =
     Some (analysed (12 / 100) 12 100 (listing i 100000 8000), 20 / 100)"
  using one_year_cash_flow_8000 [of i]
  by (simp add: break_even_row_step_def analysed_columns)

theorem break_even_reports_first_positive_fraction_witness:
  "MonthlyCashFlow (analysed (12 / 100) 12 100 (listing ''w'' 100000 7200)) =
     MonthlyCashFlow (cash_flow_row (12 / 100) 12 100 (20 / 100)
       (analysed (12 / 100) 12 100 (listing ''w'' 100000 7200))) \<and>
   MonthlyCashFlow (analysed (12 / 100) 12 100 (listing ''b'' 100000 8000)) =
     MonthlyCashFlow (cash_flow_row (12 / 100) 12 100 (20 / 100)
       (analysed (12 / 100) 12 100 (listing ''b'' 100000 8000))) \<and>
   \<not> fgt (MonthlyCashFlow (analysed (12 / 100) 12 100 (listing ''w'' 100000 7200))) (Fin 0) \<and>
   fgt (MonthlyCashFlow (analysed (12 / 100) 12 100 (listing ''b'' 100000 8000))) (Fin 0) \<and>
   calculate_break_even_down_payment
     [analysed (12 / 100) 12 100 (listing ''w'' 100000 7200),
      analysed (12 / 100) 12 100 (listing ''b'' 100000 8000)] (12 / 100) 12 100 =
     Inr [add_down_payment
            (cash_flow_row (12 / 100) 12 100 (22 / 100) (listing ''w'' 100000 7200)) (22 / 100),
          add_down_payment (analysed (12 / 100) 12 100 (listing ''b'' 100000 8000)) (20 / 100)] \<and>
   List.map_filter (spec_break_even_record (12 / 100) 12 100)
     [analysed (12 / 100) 12 100 (listing ''w'' 100000 7200),
      analysed (12 / 100) 12 100 (listing ''b'' 100000 8000)] =
     [add_down_payment
        (cash_flow_row (12 / 100) 12 100 (22 / 100) (listing ''w'' 100000 7200)) (22 / 100),
      add_down_payment (analysed (12 / 100) 12 100 (listing ''b'' 100000 8000)) (20 / 100)]"
proof -
  let ?w = "analysed (12 / 100) 12 100 (listing ''w'' 100000 7200)"
  let ?b = "analysed (12 / 100) 12 100 (listing ''b'' 100000 8000)"
  let ?out = "[add_down_payment
        (cash_flow_row (12 / 100) 12 100 (22 / 100) (listing ''w'' 100000 7200)) (22 / 100),
      add_down_payment ?b (20 / 100)]"
  have cw: "MonthlyCashFlow ?w = MonthlyCashFlow (cash_flow_row (12 / 100) 12 100 (20 / 100) ?w)"
    by (simp only: analysed_columns cash_flow_row_analysed)
  have cb: "MonthlyCashFlow ?b = MonthlyCashFlow (cash_flow_row (12 / 100) 12 100 (20 / 100) ?b)"
    by (simp only: analysed_columns cash_flow_row_analysed)
  have nw: "\<not> fgt (MonthlyCashFlow ?w) (Fin 0)"
    using one_year_cash_flows(1) [of "''w''"] by (simp add: analysed_columns)
  have pb: "fgt (MonthlyCashFlow ?b) (Fin 0)"
    using one_year_cash_flow_8000 [of "''b''"] by (simp add: analysed_columns)
  have run: "calculate_break_even_down_payment [?w, ?b] (12 / 100) 12 100 = Inr ?out"
    using one_year_step [of "''w''"] one_year_pass_through [of "''b''"]
    by (simp add: calculate_break_even_eq List.map_filter_simps)
  from cw cb have "\<forall>row \<in> set [?w, ?b].
      MonthlyCashFlow row = MonthlyCashFlow (cash_flow_row (12 / 100) 12 100 (20 / 100) row)"
    by simp
  from break_even_reports_first_positive_fraction [OF this] run
  have "?out = List.map_filter (spec_break_even_record (12 / 100) 12 100) [?w, ?b]" by blast
  with cw cb nw pb run show ?thesis by simp
qed

subsection \<open>The records of the break-even result\<close>

text \<open>
  Claim C10. Every record of a result that \<open>calculate_break_even_down_payment\<close>
  returns has a strictly positive \<open>MonthlyCashFlow\<close>: it is either an input record that
  was positive already, with the two down-payment columns appended at 0.20, or an input
  record that was not, with its columns recomputed at a fraction of the scan at which the
  cash flow is positive.
\<close>

theorem break_even_output_positive:
  assumes "calculate_break_even_down_payment df ir lm mi = Inr out" and "r \<in> set out"
  shows "fgt (MonthlyCashFlow r) (Fin 0) \<and>
     (\<exists>row \<in> set df.
        (fgt (MonthlyCashFlow row) (Fin 0) \<and> r = add_down_payment row (20 / 100)) \<or>
        (\<not> fgt (MonthlyCashFlow row) (Fin 0) \<and>
         (\<exists>k < 80. r = add_down_payment
            (cash_flow_row ir lm mi ((20 + of_nat k) / 100) row) ((20 + of_nat k) / 100))))"
proof -
  let ?hits = "List.map_filter (break_even_row_step ir lm mi) df"
  from assms(1) have "out = map (\<lambda>(r, pct). add_down_payment r pct) ?hits"
    by (simp add: calculate_break_even_eq split: if_splits)
  with assms(2) obtain x pct where hit: "(x, pct) \<in> set ?hits" and r: "r = add_down_payment x pct"
    by auto
  from hit obtain row where row: "row \<in> set df" and step: "break_even_row_step ir lm mi row = Some (x, pct)"
    by (auto simp: set_map_filter)
  show ?thesis
  proof (cases "fgt (MonthlyCashFlow row) (Fin 0)")
    case True
    with step have "x = row" "pct = 20 / 100" by (simp_all add: break_even_row_step_def)
    with True r row show ?thesis by (auto simp: add_down_payment_columns)
  next
    case False
    with step have "search_down_payment ir lm mi row (arange (20 / 100) 1 (1 / 100)) = Some (x, pct)"
      by (simp add: break_even_row_step_def)
    from scan_Some [OF this] obtain k where k: "k < 80" "pct = (20 + of_nat k) / 100"
      "x = cash_flow_row ir lm mi pct row" "fgt (MonthlyCashFlow x) (Fin 0)" by blast
    from k(2,3) r have rr: "r = add_down_payment
        (cash_flow_row ir lm mi ((20 + of_nat k) / 100) row) ((20 + of_nat k) / 100)"
      by (simp only:)
    from k(4) r have pos: "fgt (MonthlyCashFlow r) (Fin 0)"
      by (simp add: add_down_payment_columns)
    from False k(1) rr have "\<not> fgt (MonthlyCashFlow row) (Fin 0) \<and>
        (\<exists>k < 80. r = add_down_payment
           (cash_flow_row ir lm mi ((20 + of_nat k) / 100) row) ((20 + of_nat k) / 100))"
      by blast
    with pos row show ?thesis by blast
  qed
qed

theorem break_even_output_positive_witness:
  "calculate_break_even_down_payment
     [analysed (12 / 100) 12 100 (listing ''w'' 100000 7200)] (12 / 100) 12 100 =
     Inr [add_down_payment
            (cash_flow_row (12 / 100) 12 100 (22 / 100) (listing ''w'' 100000 7200)) (22 / 100)] \<and>
   fgt (MonthlyCashFlow (add_down_payment
          (cash_flow_row (12 / 100) 12 100 (22 / 100) (listing ''w'' 100000 7200)) (22 / 100)))
       (Fin 0)"
proof -
  let ?r = "add_down_payment
      (cash_flow_row (12 / 100) 12 100 (22 / 100) (listing ''w'' 100000 7200)) (22 / 100)"
  have out: "calculate_break_even_down_payment
      [analysed (12 / 100) 12 100 (listing ''w'' 100000 7200)] (12 / 100) 12 100 = Inr [?r]"
    using one_year_step [of "''w''"] by (simp add: calculate_break_even_eq List.map_filter_simps)
  have "?r \<in> set [?r]" by simp
  from break_even_output_positive [OF out this] out show ?thesis by blast
qed


lemma expenses_exceed_rent:
  assumes "0 < ir" "0 < lm" "0 \<le> Price row" "dp \<le> 1"
    and "RentEstimate row \<le> round2 ((Price row * (125 / 10000)) / 12) + mi"
  shows "\<not> fgt (MonthlyCashFlow (cash_flow_row ir lm mi dp row)) (Fin 0)"
proof -
  define q where "q = (1 + ir / 12) ^ lm"
  define num where "num = ((1 - dp) * Price row) * (ir / 12 * q)"
  from assms(1) have "1 < 1 + ir / 12" by simp
  with assms(2) have q: "1 < q" unfolding q_def by (simp add: one_less_power)
  from assms(1,3,4) q have "0 \<le> num" unfolding num_def by simp
  with q have "0 \<le> num / (q - 1)" by simp
  then have m: "0 \<le> round2 (num / (q - 1))" by (rule round2_nonneg)
  from q have mort: "MonthlyMortgage (cash_flow_row ir lm mi dp row) = Fin (round2 (num / (q - 1)))"
    by (simp add: cash_flow_row_columns np_div_def q_def num_def)
  have cf: "MonthlyCashFlow (cash_flow_row ir lm mi dp row) =
      Fin (round2 (RentEstimate row -
        (round2 ((Price row * (125 / 10000)) / 12) + round2 (num / (q - 1)) + mi)))"
    by (simp add: cash_flow_row_columns(6) mort fsub_def)
      (simp add: cash_flow_row_columns(4) algebra_simps)
  from assms(5) m have "RentEstimate row -
      (round2 ((Price row * (125 / 10000)) / 12) + round2 (num / (q - 1)) + mi) \<le> 0"
    by simp
  then have "round2 (RentEstimate row -
      (round2 ((Price row * (125 / 10000)) / 12) + round2 (num / (q - 1)) + mi)) \<le> 0"
    by (rule round2_nonpos)
  then show ?thesis unfolding cf by simp
qed

lemma costly_listing_never_positive:
  assumes "dp \<le> 1"
  shows "\<not> fgt (MonthlyCashFlow (cash_flow_row (61 / 1000) 360 100 dp costly_listing)) (Fin 0)"
proof -
  have "round2 ((2000000 * (125 / 10000)) / 12) = 208333 / 100"
    by (simp add: round2_def round_half_even_def Let_def)
  then have "RentEstimate costly_listing \<le>
      round2 ((Price costly_listing * (125 / 10000)) / 12) + 100"
    by (simp add: costly_listing_def listing_columns)
  moreover have "0 \<le> Price costly_listing" by (simp add: costly_listing_def listing_columns)
  ultimately show ?thesis using assms by (intro expenses_exceed_rent) simp_all
qed

subsection \<open>A search that drops every record\<close>

text \<open>
  Claim C1 says that a record with no positive cash flow in the scanned range is dropped,
  and that the result is an empty collection when every record is dropped. The code does
  the first and not the second: the frame it builds has no \<open>Price\<close> column when no
  row was appended, so the assignment of \<open>DownPaymentAmount\<close> raises \<open>KeyError\<close>.
  Here the input is one record analysed at 20% down, 6.1% over 360 months with 100 of
  insurance, for a 2000000 property renting at 2000: its monthly tax alone exceeds the
  rent, no fraction of the scan is accepted, and the call raises.
\<close>

theorem break_even_all_dropped_raises:
  "\<not> fgt (MonthlyCashFlow (analysed (61 / 1000) 360 100 costly_listing)) (Fin 0) \<and>
   break_even_row_step (61 / 1000) 360 100 (analysed (61 / 1000) 360 100 costly_listing) = None \<and>
   calculate_break_even_down_payment [analysed (61 / 1000) 360 100 costly_listing]
     (61 / 1000) 360 100 = Inl KeyError"
proof -
  let ?row = "analysed (61 / 1000) 360 100 costly_listing"
  have neg: "\<not> fgt (MonthlyCashFlow ?row) (Fin 0)"
    unfolding analysed_columns by (rule costly_listing_never_positive) simp
  have "\<forall>k < 80. \<not> fgt (MonthlyCashFlow
      (cash_flow_row (61 / 1000) 360 100 ((20 + of_nat k) / 100) ?row)) (Fin 0)"
  proof (intro allI impI)
    fix k :: nat assume "k < 80"
    then have "(20 + rat_of_nat k) / 100 \<le> 1" by simp
    then show "\<not> fgt (MonthlyCashFlow
      (cash_flow_row (61 / 1000) 360 100 ((20 + of_nat k) / 100) ?row)) (Fin 0)"
      unfolding cash_flow_row_analysed by (rule costly_listing_never_positive)
  qed
  then have "search_down_payment (61 / 1000) 360 100 ?row (arange (20 / 100) 1 (1 / 100)) = None"
    unfolding scan_None .
  with neg have none: "break_even_row_step (61 / 1000) 360 100 ?row = None"
    by (simp only: break_even_row_step_def if_False)
  then have "\<forall>row \<in> set [?row]. break_even_row_step (61 / 1000) 360 100 row = None" by simp
  from calculate_break_even_all_dropped [OF this] neg none show ?thesis by blast
qed

subsection \<open>A zero interest rate in the cash-flow calculator\<close>

text \<open>
  Claim C2 says that at an annual rate of 0 the monthly mortgage is the straight-line
  payment \<open>round (price * (1 - down payment) / term, 2)\<close>. The formula of
  \<open>calculate_monthly_cash_flow\<close> has no branch for a zero rate: both the dividend and
  the divisor are zero, the array division gives NaN, and \<open>MonthlyMortgage\<close> and
  \<open>MonthlyCashFlow\<close> are NaN for every record, term, insurance and down payment.
  \<open>calculate_investment_projections\<close> does have the straight-line branch (lemma
  \<open>projection_zero_rate_branch\<close>).
\<close>

theorem zero_rate_mortgage_is_nan:
  "MonthlyMortgage (cash_flow_row 0 lm mi dp r) = NaN \<and>
   MonthlyMortgage (cash_flow_row 0 lm mi dp r) \<noteq> Fin (round2 (Price r * (1 - dp) / of_nat lm)) \<and>
   MonthlyCashFlow (cash_flow_row 0 lm mi dp r) = NaN"
  by (simp add: cash_flow_row_columns np_div_def fsub_def)

lemma projection_zero_rate_branch:
  "interest_rate p = 0 \<Longrightarrow> total_months p \<noteq> 0 \<Longrightarrow>
     monthly_mortgage p = Inr (loan_amount p / of_nat (total_months p))"
  by (simp add: monthly_mortgage_def)

lemma zero_rate_never_found:
  "break_even_row_step 0 lm mi (cash_flow_row 0 lm mi dp r) = None"
proof -
  have "\<And>d. MonthlyCashFlow (cash_flow_row 0 lm mi d (cash_flow_row 0 lm mi dp r)) = NaN"
    by (simp add: cash_flow_row_columns np_div_def fsub_def)
  then have "search_down_payment 0 lm mi (cash_flow_row 0 lm mi dp r)
      (arange (20 / 100) 1 (1 / 100)) = None"
    unfolding search_down_payment_None by simp
  then show ?thesis
    by (simp add: break_even_row_step_def cash_flow_row_columns np_div_def fsub_def)
qed

subsection \<open>The order of the cash-flow output\<close>

text \<open>
  The sort call always has a frame to return, and every frame it may return holds the
  input rows with their three derived columns, as many as the input has, in descending
  order of \<open>MonthlyCashFlow\<close>: a record with a greater cash flow than another precedes
  it, and the records whose cash flow is NaN come last. The relative order of records
  with equal cash flow is decided inside the library's sorting routine, which the call
  leaves at its default kind and which is not part of this repository; the model does
  not fix it.
\<close>

lemma desc_nan_last_total: "desc_nan_last a b \<or> desc_nan_last b a"
  unfolding desc_nan_last_def
  by (cases "MonthlyCashFlow a"; cases "MonthlyCashFlow b") auto

lemma desc_nan_last_trans: "desc_nan_last a b \<Longrightarrow> desc_nan_last b c \<Longrightarrow> desc_nan_last a c"
  unfolding desc_nan_last_def
  by (cases "MonthlyCashFlow a"; cases "MonthlyCashFlow b"; cases "MonthlyCashFlow c") auto

lemma sort_values_desc_insert:
  assumes "sorted_wrt desc_nan_last ys"
  shows "sorted_wrt desc_nan_last
     (filter (\<lambda>y. \<not> desc_nan_last x y) ys @ x # filter (desc_nan_last x) ys)"
proof -
  have before: "\<forall>y \<in> set (filter (\<lambda>y. \<not> desc_nan_last x y) ys). desc_nan_last y x"
    using desc_nan_last_total [of x] by auto
  have after: "\<forall>z \<in> set (filter (desc_nan_last x) ys). desc_nan_last x z" by simp
  have across: "\<forall>y \<in> set (filter (\<lambda>y. \<not> desc_nan_last x y) ys).
      \<forall>z \<in> set (x # filter (desc_nan_last x) ys). desc_nan_last y z"
  proof (intro ballI)
    fix y z
    assume y: "y \<in> set (filter (\<lambda>y. \<not> desc_nan_last x y) ys)"
      and z: "z \<in> set (x # filter (desc_nan_last x) ys)"
    from y before have yx: "desc_nan_last y x" by blast
    from z consider "z = x" | "desc_nan_last x z" by auto
    then show "desc_nan_last y z"
    proof cases
      case 1
      with yx show ?thesis by simp
    next
      case 2
      with yx show ?thesis by (rule desc_nan_last_trans)
    qed
  qed
  have s1: "sorted_wrt desc_nan_last (filter (\<lambda>y. \<not> desc_nan_last x y) ys)"
    using assms by (rule sorted_wrt_filter)
  have s2: "sorted_wrt desc_nan_last (filter (desc_nan_last x) ys)"
    using assms by (rule sorted_wrt_filter)
  from s2 after have s3: "sorted_wrt desc_nan_last (x # filter (desc_nan_last x) ys)"
    by (simp only: sorted_wrt.simps simp_thms)
  from s1 s3 across show ?thesis by (simp only: sorted_wrt_append simp_thms)
qed

lemma sort_values_desc_total: "\<exists>ys. sort_values_desc xs ys"
proof (induction xs)
  case Nil
  show ?case by (simp add: sort_values_desc_def)
next
  case (Cons x xs)
  then obtain ys where ms: "mset ys = mset xs" and srt: "sorted_wrt desc_nan_last ys"
    by (auto simp: sort_values_desc_def)
  let ?zs = "filter (\<lambda>y. \<not> desc_nan_last x y) ys @ x # filter (desc_nan_last x) ys"
  have "mset ?zs = add_mset x (mset ys)"
    by (induction ys) simp_all
  with ms sort_values_desc_insert [OF srt, of x]
  have "sort_values_desc (x # xs) ?zs" by (simp add: sort_values_desc_def)
  then show ?case ..
qed

lemma calculate_monthly_cash_flow_total:
  "\<exists>out. calculate_monthly_cash_flow df ir lm mi dp out"
  unfolding calculate_monthly_cash_flow_def by (rule sort_values_desc_total)

lemma calculate_monthly_cash_flow_descending:
  assumes "calculate_monthly_cash_flow df ir lm mi dp out"
  shows "mset out = mset (map (cash_flow_row ir lm mi dp) df) \<and>
     length out = length df \<and>
     (\<forall>i j. i < length out \<and> j < length out \<and>
        fgt (MonthlyCashFlow (out ! i)) (MonthlyCashFlow (out ! j)) \<longrightarrow> i < j) \<and>
     (\<forall>i j. i < j \<and> j < length out \<and> MonthlyCashFlow (out ! i) = NaN \<longrightarrow>
        MonthlyCashFlow (out ! j) = NaN)"
proof -
  from assms have ms: "mset out = mset (map (cash_flow_row ir lm mi dp) df)"
    and srt: "sorted_wrt desc_nan_last out"
    by (simp_all add: calculate_monthly_cash_flow_def sort_values_desc_def)
  from ms have "size (mset out) = size (mset (map (cash_flow_row ir lm mi dp) df))" by simp
  then have len: "length out = length df" by simp
  have ord: "\<forall>i j. i < length out \<and> j < length out \<and>
      fgt (MonthlyCashFlow (out ! i)) (MonthlyCashFlow (out ! j)) \<longrightarrow> i < j"
  proof (intro allI impI)
    fix i j
    assume a: "i < length out \<and> j < length out \<and>
      fgt (MonthlyCashFlow (out ! i)) (MonthlyCashFlow (out ! j))"
    show "i < j"
    proof (rule ccontr)
      assume "\<not> i < j"
      then consider "i = j" | "j < i" by linarith
      then show False
      proof cases
        case 1
        with a show False by (simp add: fgt_irrefl)
      next
        case 2
        with a srt have "desc_nan_last (out ! j) (out ! i)"
          by (simp add: sorted_wrt_iff_nth_less)
        with a show False by (simp add: desc_nan_last_def)
      qed
    qed
  qed
  have nan: "\<forall>i j. i < j \<and> j < length out \<and> MonthlyCashFlow (out ! i) = NaN \<longrightarrow>
      MonthlyCashFlow (out ! j) = NaN"
  proof (intro allI impI)
    fix i j
    assume a: "i < j \<and> j < length out \<and> MonthlyCashFlow (out ! i) = NaN"
    with srt have "desc_nan_last (out ! i) (out ! j)"
      by (simp add: sorted_wrt_iff_nth_less)
    with a show "MonthlyCashFlow (out ! j) = NaN" by (simp add: desc_nan_last_def)
  qed
  from ms len ord nan show ?thesis by blast
qed

end
